theory Spec2Isabelle
  imports Main "HOL-Library.Sublist"
begin

section \<open>Strings and values shared by both stores\<close>

text \<open>
  Go strings are byte sequences; they are modelled as \<^typ>\<open>string\<close> (a list of
  8-bit characters). \<open>strings.Join\<close> and \<open>strings.Split\<close> are written out for
  the single separator the code uses (a comma).
\<close>

fun strings_Join :: "string list \<Rightarrow> string \<Rightarrow> string" where
  "strings_Join [] sep = []"
| "strings_Join [x] sep = x"
| "strings_Join (x # y # ys) sep = x @ sep @ strings_Join (y # ys) sep"

fun strings_Split :: "string \<Rightarrow> char \<Rightarrow> string list" where
  "strings_Split [] sep = [[]]"
| "strings_Split (c # cs) sep =
     (if c = sep then [] # strings_Split cs sep
      else (case strings_Split cs sep of
              [] \<Rightarrow> [[c]]
            | t # ts \<Rightarrow> (c # t) # ts))"

text \<open>
  Every error value the modelled functions return. The Go code builds them with
  \<open>fmt.Errorf\<close>; the constructor keeps the message's kind and its parameters:
  \<open>ErrGetPackage n\<close> is "failed to get information about package n" (the
  lookup found nothing), \<open>ErrPackageInfo n\<close> the like message \<open>Install\<close>
  builds itself, \<open>InvalidFilterField f allowed\<close> is "Invalid filter field: f.
  Available fields: allowed" and \<open>InvalidSortField\<close> its twin for the sort
  field, \<open>ErrNoSuchTable\<close> and \<open>ErrNoRecords\<close> are the two messages of
  \<open>DatabaseExist\<close>. \<open>ErrDriver\<close> stands for an error of the database driver
  handed on unwrapped.
\<close>

datatype error =
    ErrCreateTable
  | ErrTableCleanup
  | ErrTransactionStart
  | ErrBatchInsert
  | ErrRollback
  | ErrTransactionCommit
  | ErrTemporaryTable
  | ErrTemporaryInsert
  | ErrBatchUpdate
  | ErrGetPackage string
  | ErrPackageInfo string
  | ErrNeedRoot
  | InvalidFilterField string "string list"
  | InvalidSortField string "string list"
  | ErrQueryExecution
  | ErrEmptyContainerName
  | ErrNoSuchTable
  | ErrNoRecords
  | ErrNoContainerRecords string
  | ErrDriver

text \<open>
  A table that was never created is \<open>None\<close>; otherwise it holds its rows in
  insertion order.
\<close>

type_synonym 'r table = "'r list option"

text \<open>
  Statements can fail for reasons outside the program (disk, locks, a closed
  connection). The faults of one \<open>SavePackagesToDB\<close> call are an input of the
  model: one flag per statement, and for the batch inserts a predicate on the
  batch number (0 for the first batch).
\<close>

record save_faults =
  create_fails :: bool
  delete_fails :: bool
  begin_fails :: bool
  batch_fails :: "nat \<Rightarrow> bool"
  rollback_fails :: bool
  commit_fails :: bool

definition no_save_faults :: save_faults where
  "no_save_faults =
     \<lparr>create_fails = False, delete_fails = False, begin_fails = False,
      batch_fails = (\<lambda>_. False), rollback_fails = False, commit_fails = False\<rparr>"

text \<open>
  A filter value has the Go type \<open>interface{}\<close>. The model keeps the dynamic
  types a caller can pass and the driver can bind: a string, an integer or a
  boolean.
\<close>

datatype gvalue = VString string | VInt int | VBool bool

text \<open>
  Two helpers are called but live outside the files at hand: the repository's
  \<open>helper.ParseBool\<close> (value to boolean, with an \<open>ok\<close> flag) and the standard
  library's \<open>strings.ToUpper\<close>. Both are parameters of the model.
\<close>

record helpers =
  ParseBool :: "gvalue \<Rightarrow> bool option"
  ToUpper :: "string \<Rightarrow> string"

text \<open>\<open>fmt.Sprintf("%v", value)\<close> for the three kinds of value.\<close>

definition digit_char :: "nat \<Rightarrow> char" where
  "digit_char d = char_of (48 + d)"

function digits :: "nat \<Rightarrow> string" where
  "digits n = (if n < 10 then [digit_char n] else digits (n div 10) @ [digit_char (n mod 10)])"
  by pat_completeness auto
termination
  by (relation "measure id") auto

declare digits.simps [simp del]

definition show_int :: "int \<Rightarrow> string" where
  "show_int n = (if n < 0 then CHR ''-'' # digits (nat (- n)) else digits (nat n))"

definition fmt_v :: "gvalue \<Rightarrow> string" where
  "fmt_v value =
     (case value of
        VString s \<Rightarrow> s
      | VInt n \<Rightarrow> show_int n
      | VBool b \<Rightarrow> (if b then ''true'' else ''false''))"

text \<open>
  The integer the driver binds for a value that is not a string (a string never
  gets here: it takes the \<open>LIKE\<close> branch).
\<close>

definition bind_int :: "gvalue \<Rightarrow> int" where
  "bind_int value =
     (case value of
        VInt n \<Rightarrow> n
      | VBool b \<Rightarrow> (if b then 1 else 0)
      | VString s \<Rightarrow> 0)"

section \<open>The statements the query builders produce, and what the engine does with them\<close>

text \<open>
  The builders append one text fragment per condition to \<open>conditions\<close> and its
  parameter to \<open>args\<close>, in step. The model keeps each fragment with its
  parameter:
  \<^item> \<open>Eq f n\<close> is \<^verbatim>\<open>f = ?\<close> with the integer \<open>n\<close> bound;
  \<^item> \<open>Like f p\<close> is \<^verbatim>\<open>f LIKE ?\<close> with the pattern \<open>p\<close> bound;
  \<^item> \<open>WrappedLike f p\<close> is \<^verbatim>\<open>',' || f || ',' LIKE ?\<close> with the pattern \<open>p\<close> bound;
  \<^item> \<open>EqText f s\<close> is \<^verbatim>\<open>f = ?\<close> with the string \<open>s\<close> bound (only \<^verbatim>\<open>container = ?\<close>).
\<close>

datatype cond =
    Eq string int
  | EqText string string
  | Like string string
  | WrappedLike string string

record query =
  q_where :: "cond list"
  q_order :: "(string \<times> string) option"
  q_limit :: "int option"
  q_offset :: "int option"

datatype sqlval = SInt int | SText string

text \<open>
  The engine is SQLite (\<open>DatabaseExist\<close> tests for its message
  \<open>no such table\<close>). Its \<open>LIKE\<close>: \<open>%\<close> in the pattern matches any run of
  characters, \<open>_\<close> any one character, every other character itself, where ASCII
  letters match without regard to case. No escape character is in force. (A
  character outside ASCII is several bytes, and the engine's \<open>_\<close> takes all
  of them; the model's \<open>_\<close> takes one byte. The two agree on ASCII text.)
\<close>

definition ascii_lower :: "char \<Rightarrow> char" where
  "ascii_lower c =
     (let n = (of_char c :: nat) in if 65 \<le> n \<and> n \<le> 90 then char_of (n + 32) else c)"

fun sql_like :: "string \<Rightarrow> string \<Rightarrow> bool" where
  "sql_like [] [] = True"
| "sql_like [] (c # cs) = False"
| "sql_like (p # ps) [] = (p = CHR ''%'' \<and> sql_like ps [])"
| "sql_like (p # ps) (c # cs) =
     (if p = CHR ''%'' then sql_like ps (c # cs) \<or> sql_like (p # ps) cs
      else (p = CHR ''_'' \<or> ascii_lower p = ascii_lower c) \<and> sql_like ps cs)"

text \<open>A column's value as text, as \<open>LIKE\<close> and \<open>||\<close> read it.\<close>

definition as_text :: "sqlval \<Rightarrow> string" where
  "as_text v = (case v of SInt n \<Rightarrow> show_int n | SText s \<Rightarrow> s)"

text \<open>
  One condition on one row, \<open>col\<close> giving the row's value in a column. A bound
  integer compared with a text column is compared as text (column affinity).
\<close>

definition holds :: "(string \<Rightarrow> 'r \<Rightarrow> sqlval) \<Rightarrow> 'r \<Rightarrow> cond \<Rightarrow> bool" where
  "holds col r c =
     (case c of
        Eq f n \<Rightarrow> (case col f r of SInt m \<Rightarrow> m = n | SText s \<Rightarrow> s = show_int n)
      | EqText f s \<Rightarrow> (case col f r of SInt m \<Rightarrow> False | SText t \<Rightarrow> t = s)
      | Like f p \<Rightarrow> sql_like p (as_text (col f r))
      | WrappedLike f p \<Rightarrow> sql_like p ('','' @ as_text (col f r) @ '',''))"

definition cond_field :: "cond \<Rightarrow> string" where
  "cond_field c =
     (case c of Eq f n \<Rightarrow> f | EqText f s \<Rightarrow> f | Like f p \<Rightarrow> f | WrappedLike f p \<Rightarrow> f)"

text \<open>
  \<open>ORDER BY\<close>: integers by value, text byte by byte. Rows with equal keys keep
  their table order (the engine promises no order for them; the model fixes
  one).
\<close>

fun text_le :: "string \<Rightarrow> string \<Rightarrow> bool" where
  "text_le [] t = True"
| "text_le (a # s) [] = False"
| "text_le (a # s) (b # t) =
     ((of_char a :: nat) < of_char b \<or> (a = b \<and> text_le s t))"

definition sqlval_le :: "sqlval \<Rightarrow> sqlval \<Rightarrow> bool" where
  "sqlval_le v w =
     (case (v, w) of
        (SInt a, SInt b) \<Rightarrow> a \<le> b
      | (SInt a, SText t) \<Rightarrow> True
      | (SText s, SInt b) \<Rightarrow> False
      | (SText s, SText t) \<Rightarrow> text_le s t)"

fun insert_by :: "('r \<Rightarrow> 'r \<Rightarrow> bool) \<Rightarrow> 'r \<Rightarrow> 'r list \<Rightarrow> 'r list" where
  "insert_by le x [] = [x]"
| "insert_by le x (y # ys) = (if le x y then x # y # ys else y # insert_by le x ys)"

definition order_rows ::
  "(string \<Rightarrow> 'r \<Rightarrow> sqlval) \<Rightarrow> (string \<times> string) option \<Rightarrow> 'r list \<Rightarrow> 'r list" where
  "order_rows col ord rows =
     (case ord of
        None \<Rightarrow> rows
      | Some (f, dir) \<Rightarrow>
          (if dir = ''DESC''
           then foldr (insert_by (\<lambda>x y. sqlval_le (col f y) (col f x))) rows []
           else foldr (insert_by (\<lambda>x y. sqlval_le (col f x) (col f y))) rows []))"

definition limit_rows :: "int option \<Rightarrow> int option \<Rightarrow> 'r list \<Rightarrow> 'r list" where
  "limit_rows lim off rows =
     (case lim of
        None \<Rightarrow> rows
      | Some l \<Rightarrow> take (nat l) (case off of None \<Rightarrow> rows | Some k \<Rightarrow> drop (nat k) rows))"

text \<open>
  Running a \<open>SELECT\<close>: \<open>None\<close> when the statement fails, which it does when the
  table is missing or a named column is not one of the table's \<open>columns\<close>.
\<close>

definition query_fields :: "query \<Rightarrow> string list" where
  "query_fields q =
     map cond_field (q_where q) @ (case q_order q of None \<Rightarrow> [] | Some (f, dir) \<Rightarrow> [f])"

definition select_rows ::
  "string list \<Rightarrow> (string \<Rightarrow> 'r \<Rightarrow> sqlval) \<Rightarrow> 'r table \<Rightarrow> query \<Rightarrow> 'r list option" where
  "select_rows columns col db q =
     (case db of
        None \<Rightarrow> None
      | Some rows \<Rightarrow>
          if list_all (\<lambda>f. f \<in> set columns) (query_fields q)
          then Some (limit_rows (q_limit q) (q_offset q)
                 (order_rows col (q_order q)
                   (filter (\<lambda>r. list_all (holds col r) (q_where q)) rows)))
          else None)"

text \<open>Is the field in the list of allowed ones (the loop of \<open>isAllowedField\<close>).\<close>

fun isAllowedField :: "string \<Rightarrow> string list \<Rightarrow> bool" where
  "isAllowedField field [] = False"
| "isAllowedField field (f # allowed) = (if f = field then True else isAllowedField field allowed)"

text \<open>The sort clause and the limit clause, built the same way by both stores.\<close>

definition order_clause :: "helpers \<Rightarrow> string \<Rightarrow> string \<Rightarrow> (string \<times> string) option" where
  "order_clause h sortField sortOrder =
     (if sortField \<noteq> [] then
        (let upperOrder = ToUpper h sortOrder in
         Some (sortField,
           if upperOrder \<noteq> ''ASC'' \<and> upperOrder \<noteq> ''DESC'' then ''ASC'' else upperOrder))
      else None)"

definition build_query ::
  "helpers \<Rightarrow> cond list \<Rightarrow> string \<Rightarrow> string \<Rightarrow> int \<Rightarrow> int \<Rightarrow> query" where
  "build_query h conditions sortField sortOrder limit offset =
     \<lparr>q_where = conditions,
      q_order = order_clause h sortField sortOrder,
      q_limit = (if limit > 0 then Some limit else None),
      q_offset = (if limit > 0 \<and> offset > 0 then Some offset else None)\<rparr>"

section \<open>The host store (package \<open>apt\<close>, table \<open>host_image_packages\<close>)\<close>

record Package =
  Name :: string
  Section :: string
  InstalledSize :: int
  Maintainer :: string
  Version :: string
  VersionInstalled :: string
  Depends :: "string list"
  Provides :: "string list"
  Size :: int
  Filename :: string
  Description :: string
  Changelog :: string
  Installed :: bool

text \<open>A stored row: the thirteen columns of the \<open>CREATE TABLE\<close> statement.\<close>

record row =
  c_name :: string
  c_section :: string
  c_installed_size :: int
  c_maintainer :: string
  c_version :: string
  c_versionInstalled :: string
  c_depends :: string
  c_provides :: string
  c_size :: int
  c_filename :: string
  c_description :: string
  c_changelog :: string
  c_installed :: int

text \<open>The argument tuple \<open>SavePackagesToDB\<close> binds for one package.\<close>

definition toRow :: "Package \<Rightarrow> row" where
  "toRow pkg =
     \<lparr>c_name = Name pkg, c_section = Section pkg,
      c_installed_size = InstalledSize pkg, c_maintainer = Maintainer pkg,
      c_version = Version pkg, c_versionInstalled = VersionInstalled pkg,
      c_depends = strings_Join (Depends pkg) '','',
      c_provides = strings_Join (Provides pkg) '','',
      c_size = Size pkg, c_filename = Filename pkg,
      c_description = Description pkg, c_changelog = Changelog pkg,
      c_installed = (if Installed pkg then 1 else 0)\<rparr>"

text \<open>What the readers build from one scanned row.\<close>

definition fromRow :: "row \<Rightarrow> Package" where
  "fromRow r =
     \<lparr>Name = c_name r, Section = c_section r,
      InstalledSize = c_installed_size r, Maintainer = c_maintainer r,
      Version = c_version r, VersionInstalled = c_versionInstalled r,
      Depends = (if c_depends r \<noteq> [] then strings_Split (c_depends r) CHR '','' else []),
      Provides = (if c_provides r \<noteq> [] then strings_Split (c_provides r) CHR '','' else []),
      Size = c_size r, Filename = c_filename r,
      Description = c_description r, Changelog = c_changelog r,
      Installed = (c_installed r \<noteq> 0)\<rparr>"

subsection \<open>SavePackagesToDB\<close>

text \<open>
  The batch loop \<open>for i := 0; i < n; i += batchSize\<close> inside the transaction.
  \<open>pending\<close> are the rows inserted so far in the transaction; a failing batch
  leaves the loop with \<open>Inl\<close>.
\<close>

function insertBatches ::
  "(nat \<Rightarrow> bool) \<Rightarrow> ('p \<Rightarrow> 'r) \<Rightarrow> nat \<Rightarrow> 'p list \<Rightarrow> 'r list \<Rightarrow> unit + 'r list" where
  "insertBatches fails conv i packages pending =
     (if i < length packages then
        (if fails (i div 1000) then Inl ()
         else insertBatches fails conv (i + 1000) packages
                (pending @ map conv (take (min (i + 1000) (length packages) - i) (drop i packages))))
      else Inr pending)"
  by pat_completeness auto
termination
  by (relation "measure (\<lambda>(fails, conv, i, packages, pending). length packages - i)") auto

declare insertBatches.simps [simp del]

text \<open>
  \<open>CREATE TABLE IF NOT EXISTS\<close> and \<open>DELETE FROM\<close> run on the connection itself
  (each commits at once); only the inserts run in the transaction opened after
  them. The result is the returned error (\<open>None\<close> for \<open>nil\<close>) and the table as
  persisted when the call returns.
\<close>

definition SavePackagesToDB ::
  "save_faults \<Rightarrow> row table \<Rightarrow> Package list \<Rightarrow> error option \<times> row table" where
  "SavePackagesToDB fl db packages =
     (if create_fails fl then (Some ErrCreateTable, db)
      else
        let created = (case db of None \<Rightarrow> Some [] | Some rs \<Rightarrow> Some rs) in
        if delete_fails fl then (Some ErrTableCleanup, created)
        else
          let cleared = Some [] in
          if begin_fails fl then (Some ErrTransactionStart, cleared)
          else
            (case insertBatches (batch_fails fl) toRow 0 packages [] of
               Inl _ \<Rightarrow>
                 if rollback_fails fl then (Some ErrRollback, cleared)
                 else (Some ErrBatchInsert, cleared)
             | Inr pending \<Rightarrow>
                 if commit_fails fl then (Some ErrTransactionCommit, cleared)
                 else (None, Some pending)))"

subsection \<open>PackageDatabaseExist\<close>

text \<open>
  \<open>SELECT COUNT(*)\<close> is scanned into \<open>count\<close>; the function returns the scan's
  error and never looks at \<open>count\<close>. The query fails when the table is missing.
\<close>

definition PackageDatabaseExist :: "row table \<Rightarrow> error option" where
  "PackageDatabaseExist db =
     (case db of
        None \<Rightarrow> Some ErrDriver
      | Some rows \<Rightarrow> (let count = length rows in None))"

subsection \<open>GetPackageByName\<close>

text \<open>
  \<open>SELECT ... WHERE name = ?\<close> read with \<open>QueryRow(...).Scan\<close>: the first matching
  row, and an error when there is none or the table is missing. Every failure
  becomes the same message, which names the requested package.
\<close>

definition GetPackageByName :: "row table \<Rightarrow> string \<Rightarrow> error + Package" where
  "GetPackageByName db packageName =
     (case db of
        None \<Rightarrow> Inl (ErrGetPackage packageName)
      | Some rows \<Rightarrow>
          (case find (\<lambda>r. c_name r = packageName) rows of
             None \<Rightarrow> Inl (ErrGetPackage packageName)
           | Some r \<Rightarrow> Inr (fromRow r)))"

subsection \<open>SyncPackageInstallationInfo\<close>

record sync_faults =
  sync_begin_fails :: bool
  sync_create_fails :: bool
  sync_insert_fails :: bool
  sync_update_fails :: bool
  sync_commit_fails :: bool

definition no_sync_faults :: sync_faults where
  "no_sync_faults =
     \<lparr>sync_begin_fails = False, sync_create_fails = False, sync_insert_fails = False,
      sync_update_fails = False, sync_commit_fails = False\<rparr>"

text \<open>
  The \<open>UPDATE\<close> statement on one row, given the rows of \<open>tmp_installed\<close>:
  \<open>installed\<close> is 1 when a row of that name exists and 0 otherwise,
  \<open>versionInstalled\<close> is that row's version, or the empty string (\<open>COALESCE\<close>).
\<close>

definition syncRow :: "(string \<times> string) list \<Rightarrow> row \<Rightarrow> row" where
  "syncRow tmp_installed r =
     r\<lparr>c_installed := (if \<exists>t \<in> set tmp_installed. fst t = c_name r then 1 else 0),
       c_versionInstalled :=
         (case find (\<lambda>t. fst t = c_name r) tmp_installed of
            None \<Rightarrow> []
          | Some t \<Rightarrow> snd t)\<rparr>"

text \<open>
  \<open>installedPackages\<close> is a Go map; the model takes its entries in the order the
  \<open>range\<close> loop visits them. \<open>tmp_installed.name\<close> is a primary key, so an
  insert of two entries with one name fails (a Go map never holds such entries).
  Everything runs in one transaction: every error path leaves the table as it
  was. The \<open>UPDATE\<close> fails when the table does not exist.
\<close>

definition SyncPackageInstallationInfo ::
  "sync_faults \<Rightarrow> row table \<Rightarrow> (string \<times> string) list \<Rightarrow> error option \<times> row table" where
  "SyncPackageInstallationInfo fl db installedPackages =
     (if sync_begin_fails fl then (Some ErrTransactionStart, db)
      else if sync_create_fails fl then (Some ErrTemporaryTable, db)
      else if installedPackages \<noteq> [] \<and>
              (sync_insert_fails fl \<or> \<not> distinct (map fst installedPackages))
        then (Some ErrTemporaryInsert, db)
      else
        (case db of
           None \<Rightarrow> (Some ErrBatchUpdate, db)
         | Some rows \<Rightarrow>
             if sync_update_fails fl then (Some ErrBatchUpdate, db)
             else if sync_commit_fails fl then (Some ErrTransactionCommit, db)
             else (None, Some (map (syncRow installedPackages) rows))))"

subsection \<open>QueryHostImagePackages and CountHostImagePackages\<close>

definition allowedSortFields :: "string list" where
  "allowedSortFields =
     [''name'', ''section'', ''installedSize'', ''maintainer'', ''version'',
      ''versionInstalled'', ''depends'', ''provides'', ''size'', ''filename'',
      ''description'', ''changelog'', ''installed'']"

definition allowedFilterFields :: "string list" where
  "allowedFilterFields =
     [''name'', ''section'', ''installedSize'', ''maintainer'', ''version'',
      ''versionInstalled'', ''depends'', ''provides'', ''size'', ''filename'',
      ''description'', ''changelog'', ''installed'']"

text \<open>The columns of \<open>host_image_packages\<close> and a row's value in each.\<close>

definition hostColumns :: "string list" where
  "hostColumns =
     [''name'', ''section'', ''installed_size'', ''maintainer'', ''version'',
      ''versionInstalled'', ''depends'', ''provides'', ''size'', ''filename'',
      ''description'', ''changelog'', ''installed'']"

definition hostCol :: "string \<Rightarrow> row \<Rightarrow> sqlval" where
  "hostCol f r =
     (if f = ''name'' then SText (c_name r)
      else if f = ''section'' then SText (c_section r)
      else if f = ''installed_size'' then SInt (c_installed_size r)
      else if f = ''maintainer'' then SText (c_maintainer r)
      else if f = ''version'' then SText (c_version r)
      else if f = ''versionInstalled'' then SText (c_versionInstalled r)
      else if f = ''depends'' then SText (c_depends r)
      else if f = ''provides'' then SText (c_provides r)
      else if f = ''size'' then SInt (c_size r)
      else if f = ''filename'' then SText (c_filename r)
      else if f = ''description'' then SText (c_description r)
      else if f = ''changelog'' then SText (c_changelog r)
      else SInt (c_installed r))"

text \<open>
  The body of the loop over \<open>filters\<close> for one allowed field: the condition it
  appends, or none (\<open>continue\<close>) when \<open>installed\<close> has a value that does not
  parse.
\<close>

definition hostCondition :: "helpers \<Rightarrow> string \<Rightarrow> gvalue \<Rightarrow> cond list" where
  "hostCondition h field value =
     (if field = ''installed'' then
        (case ParseBool h value of
           None \<Rightarrow> []
         | Some boolVal \<Rightarrow> [Eq field (if boolVal then 1 else 0)])
      else if field = ''provides'' \<or> field = ''depends'' then
        (case value of
           VString strVal \<Rightarrow> [WrappedLike field (''%,'' @ strVal @ '',%'')]
         | _ \<Rightarrow> [WrappedLike field (''%,'' @ fmt_v value @ '',%'')])
      else
        (case value of
           VString strVal \<Rightarrow> [Like field (''%'' @ strVal @ ''%'')]
         | _ \<Rightarrow> [Eq field (bind_int value)]))"

text \<open>
  The loop over \<open>filters\<close>, a Go map: the model takes the entries in the order
  the \<open>range\<close> loop visits them. The first field met that is not allowed ends
  the function.
\<close>

fun hostConditions :: "helpers \<Rightarrow> (string \<times> gvalue) list \<Rightarrow> error + cond list" where
  "hostConditions h [] = Inr []"
| "hostConditions h ((field, value) # filters) =
     (if \<not> isAllowedField field allowedFilterFields
      then Inl (InvalidFilterField field allowedFilterFields)
      else (case hostConditions h filters of
              Inl e \<Rightarrow> Inl e
            | Inr conditions \<Rightarrow> Inr (hostCondition h field value @ conditions)))"

text \<open>
  The result is paired with the statements the call handed to the connection
  (none, or the one \<open>SELECT\<close>).
\<close>

definition QueryHostImagePackages ::
  "helpers \<Rightarrow> row table \<Rightarrow> (string \<times> gvalue) list \<Rightarrow> string \<Rightarrow> string \<Rightarrow> int \<Rightarrow> int
     \<Rightarrow> (error + Package list) \<times> query list" where
  "QueryHostImagePackages h db filters sortField sortOrder limit offset =
     (case hostConditions h filters of
        Inl e \<Rightarrow> (Inl e, [])
      | Inr conditions \<Rightarrow>
          if sortField \<noteq> [] \<and> \<not> isAllowedField sortField allowedSortFields
          then (Inl (InvalidSortField sortField allowedSortFields), [])
          else
            (let q = build_query h conditions sortField sortOrder limit offset in
             case select_rows hostColumns hostCol db q of
               None \<Rightarrow> (Inl ErrQueryExecution, [q])
             | Some rows \<Rightarrow> (Inr (map fromRow rows), [q])))"

definition CountHostImagePackages ::
  "helpers \<Rightarrow> row table \<Rightarrow> (string \<times> gvalue) list \<Rightarrow> (error + int) \<times> query list" where
  "CountHostImagePackages h db filters =
     (case hostConditions h filters of
        Inl e \<Rightarrow> (Inl e, [])
      | Inr conditions \<Rightarrow>
          (let q = \<lparr>q_where = conditions, q_order = None, q_limit = None, q_offset = None\<rparr> in
           case select_rows hostColumns hostCol db q of
             None \<Rightarrow> (Inl ErrQueryExecution, [q])
           | Some rows \<Rightarrow> (Inr (int (length rows)), [q])))"

section \<open>The container store (package \<open>service\<close>, table \<open>distrobox_packages\<close>)\<close>

record PackageInfo =
  i_Name :: string
  i_Version :: string
  i_Description :: string
  i_Container :: string
  i_Installed :: bool
  i_Exporting :: bool
  i_Manager :: string

record drow =
  d_container :: string
  d_name :: string
  d_version :: string
  d_description :: string
  d_installed :: int
  d_exporting :: int
  d_manager :: string

definition toDrow :: "string \<Rightarrow> PackageInfo \<Rightarrow> drow" where
  "toDrow containerName pkg =
     \<lparr>d_container = containerName, d_name = i_Name pkg, d_version = i_Version pkg,
      d_description = i_Description pkg,
      d_installed = (if i_Installed pkg then 1 else 0),
      d_exporting = (if i_Exporting pkg then 1 else 0),
      d_manager = i_Manager pkg\<rparr>"

definition fromDrow :: "drow \<Rightarrow> PackageInfo" where
  "fromDrow r =
     \<lparr>i_Name = d_name r, i_Version = d_version r, i_Description = d_description r,
      i_Container = d_container r, i_Installed = (d_installed r \<noteq> 0),
      i_Exporting = (d_exporting r \<noteq> 0), i_Manager = d_manager r\<rparr>"

subsection \<open>SavePackagesToDB (per container)\<close>

text \<open>
  As on the host: the table is created and the container's rows are deleted on
  the connection itself, then the inserts run in a transaction. Driver errors
  are returned as they are.
\<close>

definition Distro_SavePackagesToDB ::
  "save_faults \<Rightarrow> drow table \<Rightarrow> string \<Rightarrow> PackageInfo list \<Rightarrow> error option \<times> drow table" where
  "Distro_SavePackagesToDB fl db containerName packages =
     (if length containerName = 0 then (Some ErrEmptyContainerName, db)
      else if create_fails fl then (Some ErrDriver, db)
      else
        let created = (case db of None \<Rightarrow> [] | Some rs \<Rightarrow> rs) in
        if delete_fails fl then (Some ErrDriver, Some created)
        else
          let cleared = filter (\<lambda>r. d_container r \<noteq> containerName) created in
          if begin_fails fl then (Some ErrDriver, Some cleared)
          else
            (case insertBatches (batch_fails fl) (toDrow containerName) 0 packages [] of
               Inl _ \<Rightarrow> (Some ErrDriver, Some cleared)
             | Inr pending \<Rightarrow>
                 if commit_fails fl then (Some ErrDriver, Some cleared)
                 else (None, Some (cleared @ pending))))"

subsection \<open>DatabaseExist and ContainerDatabaseExist\<close>

definition DatabaseExist :: "drow table \<Rightarrow> error option" where
  "DatabaseExist db =
     (case db of
        None \<Rightarrow> Some ErrNoSuchTable
      | Some rows \<Rightarrow> (let count = length rows in if count = 0 then Some ErrNoRecords else None))"

definition ContainerDatabaseExist :: "drow table \<Rightarrow> string \<Rightarrow> error option" where
  "ContainerDatabaseExist db containerName =
     (case db of
        None \<Rightarrow> Some ErrDriver
      | Some rows \<Rightarrow>
          (let count = length (filter (\<lambda>r. d_container r = containerName) rows) in
           if count = 0 then Some (ErrNoContainerRecords containerName) else None))"

subsection \<open>QueryPackages and CountTotalPackages\<close>

definition distro_allowedSortFields :: "string list" where
  "distro_allowedSortFields =
     [''name'', ''version'', ''description'', ''container'', ''installed'', ''exporting'',
      ''manager'']"

definition distro_allowedFilterFields :: "string list" where
  "distro_allowedFilterFields =
     [''name'', ''version'', ''description'', ''container'', ''installed'', ''exporting'',
      ''manager'']"

definition distroColumns :: "string list" where
  "distroColumns =
     [''container'', ''name'', ''version'', ''description'', ''installed'', ''exporting'',
      ''manager'']"

definition distroCol :: "string \<Rightarrow> drow \<Rightarrow> sqlval" where
  "distroCol f r =
     (if f = ''container'' then SText (d_container r)
      else if f = ''name'' then SText (d_name r)
      else if f = ''version'' then SText (d_version r)
      else if f = ''description'' then SText (d_description r)
      else if f = ''installed'' then SInt (d_installed r)
      else if f = ''exporting'' then SInt (d_exporting r)
      else SText (d_manager r))"

definition distroCondition :: "helpers \<Rightarrow> string \<Rightarrow> gvalue \<Rightarrow> cond list" where
  "distroCondition h field value =
     (if field = ''installed'' \<or> field = ''exporting'' then
        (case ParseBool h value of
           None \<Rightarrow> []
         | Some boolVal \<Rightarrow> [Eq field (if boolVal then 1 else 0)])
      else
        (case value of
           VString strVal \<Rightarrow> [Like field (''%'' @ strVal @ ''%'')]
         | _ \<Rightarrow> [Eq field (bind_int value)]))"

fun distroConditions :: "helpers \<Rightarrow> (string \<times> gvalue) list \<Rightarrow> error + cond list" where
  "distroConditions h [] = Inr []"
| "distroConditions h ((field, value) # filters) =
     (if \<not> isAllowedField field distro_allowedFilterFields
      then Inl (InvalidFilterField field distro_allowedFilterFields)
      else (case distroConditions h filters of
              Inl e \<Rightarrow> Inl e
            | Inr conditions \<Rightarrow> Inr (distroCondition h field value @ conditions)))"

definition containerCondition :: "string \<Rightarrow> cond list" where
  "containerCondition containerName =
     (if containerName \<noteq> [] then [EqText ''container'' containerName] else [])"

definition QueryPackages ::
  "helpers \<Rightarrow> drow table \<Rightarrow> string \<Rightarrow> (string \<times> gvalue) list \<Rightarrow> string \<Rightarrow> string \<Rightarrow> int \<Rightarrow> int
     \<Rightarrow> (error + PackageInfo list) \<times> query list" where
  "QueryPackages h db containerName filters sortField sortOrder limit offset =
     (case distroConditions h filters of
        Inl e \<Rightarrow> (Inl e, [])
      | Inr conditions \<Rightarrow>
          if sortField \<noteq> [] \<and> \<not> isAllowedField sortField distro_allowedSortFields
          then (Inl (InvalidSortField sortField distro_allowedSortFields), [])
          else
            (let q = build_query h (containerCondition containerName @ conditions)
                       sortField sortOrder limit offset in
             case select_rows distroColumns distroCol db q of
               None \<Rightarrow> (Inl ErrDriver, [q])
             | Some rows \<Rightarrow> (Inr (map fromDrow rows), [q])))"

definition CountTotalPackages ::
  "helpers \<Rightarrow> drow table \<Rightarrow> string \<Rightarrow> (string \<times> gvalue) list \<Rightarrow> (error + int) \<times> query list" where
  "CountTotalPackages h db containerName filters =
     (case distroConditions h filters of
        Inl e \<Rightarrow> (Inl e, [])
      | Inr conditions \<Rightarrow>
          (let q = \<lparr>q_where = containerCondition containerName @ conditions,
                    q_order = None, q_limit = None, q_offset = None\<rparr> in
           case select_rows distroColumns distroCol db q of
             None \<Rightarrow> (Inl ErrDriver, [q])
           | Some rows \<Rightarrow> (Inr (int (length rows)), [q])))"

subsection \<open>UpdatePackageField\<close>

text \<open>
  The function returns nothing; what it reports goes to the log. The model
  returns the table and the entries written to the log. \<open>exec_fails\<close> is a
  fault of the \<open>UPDATE\<close> statement, which also fails when the table is missing.
\<close>

datatype log_entry = LogFieldCannotBeUpdated string | LogError error

definition set_field :: "string \<Rightarrow> int \<Rightarrow> drow \<Rightarrow> drow" where
  "set_field fieldName intVal r =
     (if fieldName = ''installed'' then r\<lparr>d_installed := intVal\<rparr>
      else r\<lparr>d_exporting := intVal\<rparr>)"

text \<open>The Go map of fields that may be updated; a missing key reads as false.\<close>

definition allowedFields :: "string \<rightharpoonup> bool" where
  "allowedFields = [''installed'' \<mapsto> True, ''exporting'' \<mapsto> True]"

definition UpdatePackageField ::
  "bool \<Rightarrow> drow table \<Rightarrow> string \<Rightarrow> string \<Rightarrow> string \<Rightarrow> bool \<Rightarrow> drow table \<times> log_entry list" where
  "UpdatePackageField exec_fails db containerName name fieldName value =
     (if \<not> (case allowedFields fieldName of None \<Rightarrow> False | Some b \<Rightarrow> b)
      then (db, [LogFieldCannotBeUpdated fieldName])
      else
        (let intVal = (if value then 1 else 0) in
         case db of
           None \<Rightarrow> (db, [LogError ErrDriver])
         | Some rows \<Rightarrow>
             if exec_fails then (db, [LogError ErrDriver])
             else (Some (map (\<lambda>r. if d_container r = containerName \<and> d_name r = name
                                  then set_field fieldName intVal r else r) rows), [])))"

section \<open>Classified errors of a dry run (package \<open>apt\<close>)\<close>

text \<open>
  The callers read a classified error's code as \<open>Entry.Code\<close> and its captured
  parameters as \<open>Params\<close>. Two codes are named by the callers; \<open>ErrOtherCode\<close>
  stands for every other code of the classifier's table.
\<close>

datatype ErrCode = ErrPackageIsAlreadyNewest | ErrPackageNotInstalled | ErrOtherCode nat

record MatchedError =
  EntryCode :: ErrCode
  Params :: "string list"

definition benign :: "MatchedError \<Rightarrow> bool" where
  "benign e = (EntryCode e = ErrPackageIsAlreadyNewest \<or> EntryCode e = ErrPackageNotInstalled)"

text \<open>
  Modelled from the spec: \<open>FindCriticalError\<close> of package \<open>apt\<close> is called by
  the coordinator but its file is not at hand. The spec: among classified
  errors, the first one not belonging to the benign codes (\<open>AlreadyNewest\<close>,
  \<open>PackageNotInstalled\<close>) is returned as fatal; nil when there is none.
\<close>

fun FindCriticalError :: "MatchedError list \<Rightarrow> MatchedError option" where
  "FindCriticalError [] = None"
| "FindCriticalError (e # errors) = (if benign e then FindCriticalError errors else Some e)"

section \<open>The coordinator (package \<open>system\<close>): resolving the requested names\<close>

text \<open>
  What the coordinator reads and changes: the host store and the desired
  configuration (the names to install and the names to remove).
\<close>

record world =
  store :: "row table"
  desired_install :: "string list"
  desired_remove :: "string list"

text \<open>
  Collaborators outside the files at hand are inputs of the model: the
  effective user id, the atomic-system flag, the result of \<open>EnableOverlay\<close>,
  and what \<open>serviceAptActions.Update\<close> (a full rescan) returns and does to the
  store.
\<close>

record collaborators =
  Geteuid :: nat
  IsAtomic :: bool
  EnableOverlay :: "error option"
  AptUpdate :: "row table \<Rightarrow> error option \<times> row table"

text \<open>
  The response: \<open>Data["message"]\<close>, \<open>Data["packages"]\<close> when the key is set,
  and the \<open>Error\<close> flag. (\<open>Data["info"]\<close>, the counts of a dry run, is only set
  by the part of an operation that follows name resolution.)
\<close>

datatype message =
    MsgError error
  | MsgNeedPackage
  | MsgMaybeYouMeant error
  | MsgOther string

record APIResponse =
  Message :: message
  Packages :: "string list option"
  Error :: bool

definition newErrorResponse :: "error \<Rightarrow> APIResponse" where
  "newErrorResponse err = \<lparr>Message = MsgError err, Packages = None, Error = True\<rparr>"

definition checkRoot :: "collaborators \<Rightarrow> error option" where
  "checkRoot env =
     (if Geteuid env \<noteq> 0 then Some ErrNeedRoot
      else if IsAtomic env then
        (case EnableOverlay env of Some err \<Rightarrow> Some err | None \<Rightarrow> None)
      else None)"

text \<open>\<open>validateDB\<close>: when the existence check fails, the store is rescanned.\<close>

definition validateDB :: "collaborators \<Rightarrow> world \<Rightarrow> error option \<times> world" where
  "validateDB env w =
     (case PackageDatabaseExist (store w) of
        Some _ \<Rightarrow>
          (case checkRoot env of
             Some err \<Rightarrow> (Some err, w)
           | None \<Rightarrow>
               (case AptUpdate env (store w) of
                  (Some err, st) \<Rightarrow> (Some err, w\<lparr>store := st\<rparr>)
                | (None, st) \<Rightarrow> (None, w\<lparr>store := st\<rparr>)))
      | None \<Rightarrow> (None, w))"

subsection \<open>Remove\<close>

text \<open>
  The loop of \<open>Remove\<close> over the requested names: each is looked up by its
  exact name, and the first miss ends the operation with the lookup's error.
\<close>

fun removeResolve ::
  "row table \<Rightarrow> string list \<Rightarrow> Package list \<Rightarrow> string list \<Rightarrow> error + Package list \<times> string list" where
  "removeResolve db [] packagesInfo names = Inr (packagesInfo, names)"
| "removeResolve db (pkg # packages) packagesInfo names =
     (case GetPackageByName db pkg of
        Inl err \<Rightarrow> Inl err
      | Inr packageInfo \<Rightarrow>
          removeResolve db packages (packagesInfo @ [packageInfo]) (names @ [Name packageInfo]))"

text \<open>
  \<open>Remove\<close> up to the end of name resolution. What follows (the dry run, the
  drift check, the dialog, the real removal, the resynchronisation and the
  image change) talks to collaborators outside the files at hand; it is the
  parameter \<open>rest\<close>, which receives the world, the request, the resolved
  packages and names, and the \<open>apply\<close> flag.
\<close>

definition Remove ::
  "collaborators \<Rightarrow>
   (world \<Rightarrow> string list \<Rightarrow> Package list \<Rightarrow> string list \<Rightarrow> bool
      \<Rightarrow> (APIResponse \<times> error option) \<times> world) \<Rightarrow>
   world \<Rightarrow> string list \<Rightarrow> bool \<Rightarrow> (APIResponse \<times> error option) \<times> world" where
  "Remove env rest w packages apply =
     (case checkRoot env of
        Some err \<Rightarrow> ((newErrorResponse err, Some err), w)
      | None \<Rightarrow>
          (case validateDB env w of
             (Some err, w1) \<Rightarrow> ((newErrorResponse err, Some err), w1)
           | (None, w1) \<Rightarrow>
               if length packages = 0
               then ((\<lparr>Message = MsgNeedPackage, Packages = None, Error = True\<rparr>, None), w1)
               else
                 (case removeResolve (store w1) packages [] [] of
                    Inl err \<Rightarrow> ((newErrorResponse err, Some err), w1)
                  | Inr (packagesInfo, names) \<Rightarrow> rest w1 packages packagesInfo names apply)))"

subsection \<open>Install\<close>

text \<open>
  The lookup of one requested name in \<open>Install\<close>: by the name as given, and on a
  miss, when the name ends in \<open>+\<close> or \<open>-\<close>, once more without that last
  character. The result comes with the flag \<open>isMultiInstall\<close> it sets and
  with the names it looked up, in order.
\<close>

definition installLookup :: "row table \<Rightarrow> string \<Rightarrow> (error + Package) \<times> bool \<times> string list" where
  "installLookup db pkg =
     (case GetPackageByName db pkg of
        Inr packageInfo \<Rightarrow> (Inr packageInfo, False, [pkg])
      | Inl err \<Rightarrow>
          if length pkg > 0 \<and> (last pkg = CHR ''+'' \<or> last pkg = CHR ''-'') then
            (let cleanedPkg = butlast pkg in
             case GetPackageByName db cleanedPkg of
               Inr packageInfo \<Rightarrow> (Inr packageInfo, True, [pkg, cleanedPkg])
             | Inl err' \<Rightarrow> (Inl err', False, [pkg, cleanedPkg]))
          else (Inl err, False, [pkg]))"

text \<open>
  On a miss \<open>Install\<close> searches the \<open>provides\<close> lists for the name as given,
  with limit 5, and answers with the names found; the Go error it returns with
  them is nil.
\<close>

definition suggestAlternatives ::
  "helpers \<Rightarrow> row table \<Rightarrow> string \<Rightarrow> error \<Rightarrow> APIResponse \<times> error option" where
  "suggestAlternatives h db originalPkg err =
     (case fst (QueryHostImagePackages h db [(''provides'', VString originalPkg)] [] [] 5 0) of
        Inl errFind \<Rightarrow> (newErrorResponse err, Some err)
      | Inr alternativePackages \<Rightarrow>
          if length alternativePackages = 0
          then (newErrorResponse (ErrPackageInfo originalPkg), Some (ErrPackageInfo originalPkg))
          else (\<lparr>Message = MsgMaybeYouMeant err,
                 Packages = Some (map Name alternativePackages), Error = True\<rparr>, None))"

fun installResolve ::
  "helpers \<Rightarrow> row table \<Rightarrow> string list \<Rightarrow> bool \<Rightarrow> Package list \<Rightarrow> string list
     \<Rightarrow> (APIResponse \<times> error option) + bool \<times> Package list \<times> string list" where
  "installResolve h db [] isMultiInstall packagesInfo packageNames =
     Inr (isMultiInstall, packagesInfo, packageNames)"
| "installResolve h db (pkg # packages) isMultiInstall packagesInfo packageNames =
     (case installLookup db pkg of
        (Inl err, multi, looked) \<Rightarrow> Inl (suggestAlternatives h db pkg err)
      | (Inr packageInfo, multi, looked) \<Rightarrow>
          installResolve h db packages (isMultiInstall \<or> multi)
            (packagesInfo @ [packageInfo]) (packageNames @ [pkg]))"

definition Install ::
  "helpers \<Rightarrow> collaborators \<Rightarrow>
   (world \<Rightarrow> string list \<Rightarrow> bool \<Rightarrow> Package list \<Rightarrow> string list \<Rightarrow> bool
      \<Rightarrow> (APIResponse \<times> error option) \<times> world) \<Rightarrow>
   world \<Rightarrow> string list \<Rightarrow> bool \<Rightarrow> (APIResponse \<times> error option) \<times> world" where
  "Install h env rest w packages apply =
     (case checkRoot env of
        Some err \<Rightarrow> ((newErrorResponse err, Some err), w)
      | None \<Rightarrow>
          (case validateDB env w of
             (Some err, w1) \<Rightarrow> ((newErrorResponse err, Some err), w1)
           | (None, w1) \<Rightarrow>
               if length packages = 0
               then ((\<lparr>Message = MsgNeedPackage, Packages = None, Error = True\<rparr>, None), w1)
               else
                 (case installResolve h (store w1) packages False [] [] of
                    Inl early \<Rightarrow> (early, w1)
                  | Inr (isMultiInstall, packagesInfo, packageNames) \<Rightarrow>
                      rest w1 packages isMultiInstall packagesInfo packageNames apply)))"

subsection \<open>applyChange: the canonical name\<close>

text \<open>
  For each requested name that is not empty \<open>applyChange\<close> finds the name to
  record: the name itself when the store knows it; otherwise the inner loop
  below strips one trailing \<open>+\<close> or \<open>-\<close> at a time and looks the shorter
  name up, until a lookup succeeds or the name no longer ends in \<open>+\<close> or
  \<open>-\<close>. \<open>looked\<close> collects the names looked up, in order.
\<close>

function canonicalLoop :: "row table \<Rightarrow> string \<Rightarrow> string list \<Rightarrow> string \<times> string list" where
  "canonicalLoop db canonicalPkg looked =
     (if length canonicalPkg > 0 \<and>
         (last canonicalPkg = CHR ''+'' \<or> last canonicalPkg = CHR ''-'')
      then
        (case GetPackageByName db (butlast canonicalPkg) of
           Inr _ \<Rightarrow> (butlast canonicalPkg, looked @ [butlast canonicalPkg])
         | Inl errTmp \<Rightarrow> canonicalLoop db (butlast canonicalPkg) (looked @ [butlast canonicalPkg]))
      else (canonicalPkg, looked))"
  by pat_completeness auto
termination
  by (relation "measure (\<lambda>(db, canonicalPkg, looked). length canonicalPkg)") auto

declare canonicalLoop.simps [simp del]

text \<open>
  One turn of the loop of \<open>applyChange\<close> up to the canonical name. An empty
  requested name is skipped (\<open>continue\<close>): nothing is looked up and there is no
  canonical name, which is \<open>None\<close>. Otherwise the result is the canonical name
  with the names looked up, the name as given first.
\<close>

definition canonicalName :: "row table \<Rightarrow> string \<Rightarrow> (string \<times> string list) option" where
  "canonicalName db pkg =
     (if length pkg = 0 then None
      else
        (case GetPackageByName db pkg of
           Inl errFull \<Rightarrow> Some (canonicalLoop db pkg [pkg])
         | Inr _ \<Rightarrow> Some (pkg, [pkg])))"

text \<open>
  The names looked up one after the other by a resolution: each next name is the
  one before without its last character, that character was \<open>+\<close> or \<open>-\<close>,
  and the lookup of the name before had failed.
\<close>

fun stripped_one_by_one :: "row table \<Rightarrow> string list \<Rightarrow> bool" where
  "stripped_one_by_one db [] = True"
| "stripped_one_by_one db [x] = True"
| "stripped_one_by_one db (x # y # zs) =
     (x \<noteq> [] \<and> (last x = CHR ''+'' \<or> last x = CHR ''-'') \<and> y = butlast x \<and>
      isl (GetPackageByName db x) \<and> stripped_one_by_one db (y # zs))"

section \<open>Sample data\<close>

text \<open>A package with a name, a version and a provides list, not installed.\<close>

definition sample :: "string \<Rightarrow> string \<Rightarrow> string list \<Rightarrow> Package" where
  "sample n v provides =
     \<lparr>Name = n, Section = ''base'', InstalledSize = 0, Maintainer = [], Version = v,
      VersionInstalled = [], Depends = [], Provides = provides, Size = 0, Filename = [],
      Description = [], Changelog = [], Installed = False\<rparr>"

text \<open>A container package with a name and a version, installed, not exported.\<close>

definition sample_info :: "string \<Rightarrow> string \<Rightarrow> PackageInfo" where
  "sample_info n v =
     \<lparr>i_Name = n, i_Version = v, i_Description = [], i_Container = [],
      i_Installed = True, i_Exporting = False, i_Manager = ''apt-get''\<rparr>"

text \<open>
  Collaborators for the concrete inputs: the caller is root on a system that is
  not atomic, a rescan changes nothing; \<open>ParseBool\<close> knows \<open>true\<close> and
  \<open>false\<close>, \<open>ToUpper\<close> leaves its argument as it is.
\<close>

definition root_env :: collaborators where
  "root_env = \<lparr>Geteuid = 0, IsAtomic = False, EnableOverlay = None,
                AptUpdate = (\<lambda>st. (None, st))\<rparr>"

text \<open>
  Continuations for \<open>Remove\<close> and \<open>Install\<close> at the concrete inputs, where
  name resolution fails and they are never reached: they answer at once and
  change nothing.
\<close>

definition remove_rest ::
  "world \<Rightarrow> string list \<Rightarrow> Package list \<Rightarrow> string list \<Rightarrow> bool
     \<Rightarrow> (APIResponse \<times> error option) \<times> world" where
  "remove_rest w packages packagesInfo names apply =
     ((\<lparr>Message = MsgOther ''removed'', Packages = None, Error = False\<rparr>, None), w)"

definition install_rest ::
  "world \<Rightarrow> string list \<Rightarrow> bool \<Rightarrow> Package list \<Rightarrow> string list \<Rightarrow> bool
     \<Rightarrow> (APIResponse \<times> error option) \<times> world" where
  "install_rest w packages isMultiInstall packagesInfo packageNames apply =
     ((\<lparr>Message = MsgOther ''installed'', Packages = None, Error = False\<rparr>, None), w)"

definition sample_helpers :: helpers where
  "sample_helpers =
     \<lparr>ParseBool = (\<lambda>v. case v of
          VBool b \<Rightarrow> Some b
        | VString s \<Rightarrow> (if s = ''true'' then Some True else if s = ''false'' then Some False else None)
        | VInt n \<Rightarrow> None),
      ToUpper = (\<lambda>s. s)\<rparr>"

section \<open>Results\<close>

subsection \<open>The batch loop\<close>

lemma insertBatches_all:
  "\<forall>k. \<not> fails k \<Longrightarrow>
   insertBatches fails conv i packages pending = Inr (pending @ map conv (drop i packages))"
proof (induction fails conv i packages pending rule: insertBatches.induct)
  case (1 fails conv i packages pending)
  show ?case
  proof (cases "i < length packages")
    case True
    have split: "drop i packages =
        take (min (i + 1000) (length packages) - i) (drop i packages) @ drop (i + 1000) packages"
    proof (cases "i + 1000 \<le> length packages")
      case True
      then have m: "min (i + 1000) (length packages) - i = 1000" by simp
      have d: "drop (i + 1000) packages = drop 1000 (drop i packages)"
        by (simp add: add.commute)
      show ?thesis
        unfolding m d by (rule append_take_drop_id [symmetric])
    next
      case False
      then show ?thesis by simp
    qed
    have nf: "\<not> fails (i div 1000)"
      using "1.prems" by simp
    from True nf have
      "insertBatches fails conv i packages pending =
       insertBatches fails conv (i + 1000) packages
         (pending @ map conv (take (min (i + 1000) (length packages) - i) (drop i packages)))"
      by (subst insertBatches.simps) simp
    also have "\<dots> = Inr ((pending @ map conv (take (min (i + 1000) (length packages) - i) (drop i packages)))
                        @ map conv (drop (i + 1000) packages))"
      by (rule "1.IH" [OF True nf "1.prems"])
    also have "\<dots> = Inr (pending @ map conv (drop i packages))"
      by (subst (2) split) simp
    finally show ?thesis .
  next
    case False
    then show ?thesis by (subst insertBatches.simps) simp
  qed
qed

lemma SavePackagesToDB_ok:
  "SavePackagesToDB no_save_faults db packages = (None, Some (map toRow packages))"
  by (simp add: SavePackagesToDB_def no_save_faults_def insertBatches_all)


subsection \<open>Replacing the snapshot\<close>

lemma insertBatches_first_fails:
  "packages \<noteq> [] \<Longrightarrow> fails 0 \<Longrightarrow> insertBatches fails conv 0 packages pending = Inl ()"
  by (subst insertBatches.simps) simp

lemma insertBatches_Inr:
  "insertBatches fails conv i packages pending = Inr rows \<Longrightarrow>
   rows = pending @ map conv (drop i packages)"
proof (induction fails conv i packages pending rule: insertBatches.induct)
  case (1 fails conv i packages pending)
  show ?case
  proof (cases "i < length packages")
    case False
    with "1.prems" show ?thesis by (subst (asm) insertBatches.simps) simp
  next
    case True
    have nf: "\<not> fails (i div 1000)"
      using "1.prems" True by (subst (asm) insertBatches.simps) (auto split: if_splits)
    have split: "drop i packages =
        take (min (i + 1000) (length packages) - i) (drop i packages) @ drop (i + 1000) packages"
    proof (cases "i + 1000 \<le> length packages")
      case True
      then have m: "min (i + 1000) (length packages) - i = 1000" by simp
      have d: "drop (i + 1000) packages = drop 1000 (drop i packages)"
        by (simp add: add.commute)
      show ?thesis
        unfolding m d by (rule append_take_drop_id [symmetric])
    next
      case False
      then show ?thesis by simp
    qed
    from "1.prems" True nf have
      "insertBatches fails conv (i + 1000) packages
         (pending @ map conv (take (min (i + 1000) (length packages) - i) (drop i packages))) = Inr rows"
      by (subst (asm) insertBatches.simps) simp
    from "1.IH" [OF True nf this] have
      "rows = (pending @ map conv (take (min (i + 1000) (length packages) - i) (drop i packages)))
                @ map conv (drop (i + 1000) packages)" .
    also have "\<dots> = pending @ map conv (drop i packages)"
      by (subst (2) split) simp
    finally show ?thesis .
  qed
qed

text \<open>
  The table is never left with a part of the scan: when the call returns it is
  as it was, or empty, or holds the whole scan.
\<close>

lemma SavePackagesToDB_never_partial:
  "snd (SavePackagesToDB fl db packages) = db \<or>
   snd (SavePackagesToDB fl db packages) = Some [] \<or>
   snd (SavePackagesToDB fl db packages) = Some (map toRow packages)"
proof (cases "insertBatches (batch_fails fl) toRow 0 packages []")
  case (Inl u)
  then show ?thesis
    by (cases db) (simp_all add: SavePackagesToDB_def Let_def)
next
  case (Inr rows)
  from insertBatches_Inr [OF this] have "rows = map toRow packages" by simp
  with Inr show ?thesis
    by (cases db) (simp_all add: SavePackagesToDB_def Let_def)
qed

text \<open>
  Whenever a batch insert fails, the call returns with the table empty, whatever
  it held before: the rows were deleted before the transaction began, so the
  rollback cannot bring them back.
\<close>

lemma SavePackagesToDB_after_batch_failure:
  assumes "\<not> create_fails fl" "\<not> delete_fails fl" "\<not> begin_fails fl"
    and "insertBatches (batch_fails fl) toRow 0 packages [] = Inl u"
  shows "snd (SavePackagesToDB fl db packages) = Some []"
  using assms by (simp add: SavePackagesToDB_def Let_def)

text \<open>
  C1. Claimed: if a batch insert of the full replace fails, the whole operation
  is rolled back and the snapshot persisted before stays untouched. The code at
  a concrete input: the table holds package A, the scan holds package B, the
  first batch insert fails. The call returns the batch insert error and the
  table is empty: package A is gone. The container store does the same to the
  rows of the container (those of other containers stay).
\<close>

theorem SavePackagesToDB_batch_failure_loses_snapshot:
  "SavePackagesToDB (no_save_faults\<lparr>batch_fails := (\<lambda>k. k = 0)\<rparr>)
     (Some [toRow (sample ''A'' ''v1'' [])]) [sample ''B'' ''v2'' []]
   = (Some ErrBatchInsert, Some []) \<and>
   Distro_SavePackagesToDB (no_save_faults\<lparr>batch_fails := (\<lambda>k. k = 0)\<rparr>)
     (Some [toDrow ''box'' (sample_info ''A'' ''v1''), toDrow ''other'' (sample_info ''C'' ''v3'')])
     ''box'' [sample_info ''B'' ''v2'']
   = (Some ErrDriver, Some [toDrow ''other'' (sample_info ''C'' ''v3'')])"
  by (simp add: SavePackagesToDB_def Distro_SavePackagesToDB_def no_save_faults_def
      insertBatches_first_fails toDrow_def)

subsection \<open>Does the store hold anything?\<close>

lemma PackageDatabaseExist_iff: "PackageDatabaseExist db = None \<longleftrightarrow> db \<noteq> None"
  by (simp add: PackageDatabaseExist_def split: option.splits)

lemma DatabaseExist_iff: "DatabaseExist db = None \<longleftrightarrow> (\<exists>rows. db = Some rows \<and> rows \<noteq> [])"
  by (auto simp: DatabaseExist_def split: option.splits)

lemma ContainerDatabaseExist_iff:
  "ContainerDatabaseExist db c = None \<longleftrightarrow> (\<exists>rows. db = Some rows \<and> (\<exists>r \<in> set rows. d_container r = c))"
  by (auto simp: ContainerDatabaseExist_def filter_empty_conv split: option.splits)

text \<open>
  C9. Claimed: the existence check succeeds iff at least one row is present.
  The two checks of the container store do so (the lemmas above). The host
  check \<open>PackageDatabaseExist\<close> succeeds on every existing table: after a
  replace with an empty scan the table exists with no rows, and the check
  returns no error.
\<close>

theorem PackageDatabaseExist_empty_table:
  "snd (SavePackagesToDB no_save_faults db []) = Some [] \<and>
   PackageDatabaseExist (snd (SavePackagesToDB no_save_faults db [])) = None"
  by (simp add: SavePackagesToDB_ok PackageDatabaseExist_def)

subsection \<open>Updating one field\<close>

text \<open>
  C10. For a field name other than \<open>installed\<close> and \<open>exporting\<close>,
  \<open>UpdatePackageField\<close> leaves the table as it is; it writes one log entry and
  hands nothing to its caller (the function has no result).
\<close>

theorem UpdatePackageField_other_field:
  "fieldName \<noteq> ''installed'' \<Longrightarrow> fieldName \<noteq> ''exporting'' \<Longrightarrow>
   UpdatePackageField exec_fails db containerName name fieldName value
     = (db, [LogFieldCannotBeUpdated fieldName])"
  by (simp add: UpdatePackageField_def allowedFields_def)

theorem UpdatePackageField_other_field_witness:
  "''version'' \<noteq> ''installed'' \<and> ''version'' \<noteq> ''exporting'' \<and>
   UpdatePackageField False (Some [toDrow ''box'' (sample_info ''vim'' ''9'')])
     ''box'' ''vim'' ''version'' True
   = (Some [toDrow ''box'' (sample_info ''vim'' ''9'')], [LogFieldCannotBeUpdated ''version''])"
  using UpdatePackageField_other_field [of "''version''" False
     "Some [toDrow ''box'' (sample_info ''vim'' ''9'')]" "''box''" "''vim''" True]
  by simp

subsection \<open>The first critical error\<close>

text \<open>
  C3. \<open>FindCriticalError\<close> returns nil when every error's code is
  \<open>AlreadyNewest\<close> or \<open>PackageNotInstalled\<close>; otherwise it returns the first
  error, in the order of the list, whose code is neither: every error before it
  is benign.
\<close>

theorem FindCriticalError_first_critical:
  "((\<forall>e \<in> set errors. EntryCode e \<in> {ErrPackageIsAlreadyNewest, ErrPackageNotInstalled})
      \<longrightarrow> FindCriticalError errors = None) \<and>
   ((\<exists>e \<in> set errors. EntryCode e \<notin> {ErrPackageIsAlreadyNewest, ErrPackageNotInstalled})
      \<longrightarrow> (\<exists>before e after. errors = before @ e # after \<and>
             (\<forall>b \<in> set before. EntryCode b \<in> {ErrPackageIsAlreadyNewest, ErrPackageNotInstalled}) \<and>
             EntryCode e \<notin> {ErrPackageIsAlreadyNewest, ErrPackageNotInstalled} \<and>
             FindCriticalError errors = Some e))"
proof (induction errors)
  case Nil
  then show ?case by simp
next
  case (Cons a errors)
  show ?case
  proof (cases "benign a")
    case True
    have "\<exists>before e after. a # errors = before @ e # after \<and>
             (\<forall>b \<in> set before. EntryCode b \<in> {ErrPackageIsAlreadyNewest, ErrPackageNotInstalled}) \<and>
             EntryCode e \<notin> {ErrPackageIsAlreadyNewest, ErrPackageNotInstalled} \<and>
             FindCriticalError (a # errors) = Some e"
      if "\<exists>e \<in> set (a # errors). EntryCode e \<notin> {ErrPackageIsAlreadyNewest, ErrPackageNotInstalled}"
    proof -
      from that True have "\<exists>e \<in> set errors. EntryCode e \<notin> {ErrPackageIsAlreadyNewest, ErrPackageNotInstalled}"
        by (auto simp: benign_def)
      with Cons.IH obtain before e after where
        "errors = before @ e # after"
        "\<forall>b \<in> set before. EntryCode b \<in> {ErrPackageIsAlreadyNewest, ErrPackageNotInstalled}"
        "EntryCode e \<notin> {ErrPackageIsAlreadyNewest, ErrPackageNotInstalled}"
        "FindCriticalError errors = Some e"
        by blast
      with True show ?thesis
        by (intro exI [of _ "a # before"] exI [of _ e] exI [of _ after]) (auto simp: benign_def)
    qed
    moreover have "FindCriticalError (a # errors) = None"
      if "\<forall>e \<in> set (a # errors). EntryCode e \<in> {ErrPackageIsAlreadyNewest, ErrPackageNotInstalled}"
      using that True Cons.IH by simp
    ultimately show ?thesis by blast
  next
    case False
    then have "a # errors = [] @ a # errors \<and>
       EntryCode a \<notin> {ErrPackageIsAlreadyNewest, ErrPackageNotInstalled} \<and>
       FindCriticalError (a # errors) = Some a"
      by (simp add: benign_def)
    then have "\<exists>before e after. a # errors = before @ e # after \<and>
             (\<forall>b \<in> set before. EntryCode b \<in> {ErrPackageIsAlreadyNewest, ErrPackageNotInstalled}) \<and>
             EntryCode e \<notin> {ErrPackageIsAlreadyNewest, ErrPackageNotInstalled} \<and>
             FindCriticalError (a # errors) = Some e"
      by (intro exI [of _ "[]"] exI [of _ a] exI [of _ errors]) simp
    moreover from False have "\<not> (\<forall>e \<in> set (a # errors). EntryCode e \<in> {ErrPackageIsAlreadyNewest, ErrPackageNotInstalled})"
      by (auto simp: benign_def)
    ultimately show ?thesis by blast
  qed
qed

theorem FindCriticalError_first_critical_witness:
  "FindCriticalError
     [\<lparr>EntryCode = ErrPackageIsAlreadyNewest, Params = [''vim'']\<rparr>,
      \<lparr>EntryCode = ErrPackageNotInstalled, Params = [''nano'']\<rparr>] = None \<and>
   FindCriticalError
     [\<lparr>EntryCode = ErrPackageIsAlreadyNewest, Params = [''vim'']\<rparr>,
      \<lparr>EntryCode = ErrOtherCode 7, Params = [''gcc'']\<rparr>,
      \<lparr>EntryCode = ErrPackageNotInstalled, Params = [''nano'']\<rparr>,
      \<lparr>EntryCode = ErrOtherCode 9, Params = [''make'']\<rparr>]
     = Some \<lparr>EntryCode = ErrOtherCode 7, Params = [''gcc'']\<rparr>"
  using
    FindCriticalError_first_critical [of
      "[\<lparr>EntryCode = ErrPackageIsAlreadyNewest, Params = [''vim'']\<rparr>,
        \<lparr>EntryCode = ErrPackageNotInstalled, Params = [''nano'']\<rparr>]"]
    FindCriticalError_first_critical [of
      "[\<lparr>EntryCode = ErrPackageIsAlreadyNewest, Params = [''vim'']\<rparr>,
        \<lparr>EntryCode = ErrOtherCode 7, Params = [''gcc'']\<rparr>,
        \<lparr>EntryCode = ErrPackageNotInstalled, Params = [''nano'']\<rparr>,
        \<lparr>EntryCode = ErrOtherCode 9, Params = [''make'']\<rparr>]"]
  by (simp add: benign_def)

subsection \<open>Reconciling the installed flags\<close>

lemma find_fst_map_of:
  "(case find (\<lambda>t. fst t = k) M of None \<Rightarrow> d | Some t \<Rightarrow> snd t) =
   (case map_of M k of None \<Rightarrow> d | Some v \<Rightarrow> v)"
  by (induction M) auto

lemma syncRow_name: "c_name (syncRow M r) = c_name r"
  by (simp add: syncRow_def)

lemma syncRow_installed: "(c_installed (syncRow M r) \<noteq> 0) = (c_name r \<in> dom (map_of M))"
  by (force simp: syncRow_def dom_map_of_conv_image_fst)

lemma syncRow_version:
  "c_versionInstalled (syncRow M r) = (case map_of M (c_name r) of None \<Rightarrow> [] | Some v \<Rightarrow> v)"
  by (simp add: syncRow_def find_fst_map_of)

lemma syncRow_frame:
  "syncRow M r = r\<lparr>c_installed := c_installed (syncRow M r),
                    c_versionInstalled := c_versionInstalled (syncRow M r)\<rparr>"
  by (simp add: syncRow_def)

text \<open>
  C4. After a successful \<open>SyncPackageInstallationInfo\<close> with the installed set
  \<open>M\<close>: the table has the same number of rows with the same names in the same
  order; in each row \<open>installed\<close> is set iff the row's name is a key of \<open>M\<close>,
  \<open>versionInstalled\<close> is \<open>M\<close>'s version for the name, or the empty string when
  there is none, and no other column changed.
\<close>

theorem SyncPackageInstallationInfo_reconciles:
  assumes "SyncPackageInstallationInfo fl db M = (None, db')"
  shows "\<exists>rows rows'. db = Some rows \<and> db' = Some rows' \<and>
           length rows' = length rows \<and> map c_name rows' = map c_name rows \<and>
           (\<forall>i < length rows.
              (c_installed (rows' ! i) \<noteq> 0) = (c_name (rows ! i) \<in> dom (map_of M)) \<and>
              c_versionInstalled (rows' ! i) =
                (case map_of M (c_name (rows ! i)) of None \<Rightarrow> [] | Some v \<Rightarrow> v) \<and>
              rows' ! i = (rows ! i)\<lparr>c_installed := c_installed (rows' ! i),
                                     c_versionInstalled := c_versionInstalled (rows' ! i)\<rparr>)"
proof -
  from assms obtain rows where db: "db = Some rows" and db': "db' = Some (map (syncRow M) rows)"
    by (auto simp: SyncPackageInstallationInfo_def split: if_splits option.splits)
  have names: "map c_name (map (syncRow M) rows) = map c_name rows"
    by (simp add: syncRow_name)
  have each: "\<forall>i < length rows.
      (c_installed (map (syncRow M) rows ! i) \<noteq> 0) = (c_name (rows ! i) \<in> dom (map_of M)) \<and>
      c_versionInstalled (map (syncRow M) rows ! i) =
        (case map_of M (c_name (rows ! i)) of None \<Rightarrow> [] | Some v \<Rightarrow> v) \<and>
      map (syncRow M) rows ! i =
        (rows ! i)\<lparr>c_installed := c_installed (map (syncRow M) rows ! i),
                   c_versionInstalled := c_versionInstalled (map (syncRow M) rows ! i)\<rparr>"
  proof (intro allI impI conjI)
    fix i assume i: "i < length rows"
    then have nth: "map (syncRow M) rows ! i = syncRow M (rows ! i)" by simp
    show "(c_installed (map (syncRow M) rows ! i) \<noteq> 0) = (c_name (rows ! i) \<in> dom (map_of M))"
      unfolding nth by (rule syncRow_installed)
    show "c_versionInstalled (map (syncRow M) rows ! i) =
        (case map_of M (c_name (rows ! i)) of None \<Rightarrow> [] | Some v \<Rightarrow> v)"
      unfolding nth by (rule syncRow_version)
    show "map (syncRow M) rows ! i =
        (rows ! i)\<lparr>c_installed := c_installed (map (syncRow M) rows ! i),
                   c_versionInstalled := c_versionInstalled (map (syncRow M) rows ! i)\<rparr>"
      unfolding nth by (rule syncRow_frame)
  qed
  show ?thesis
    by (intro exI [of _ rows] exI [of _ "map (syncRow M) rows"] conjI db db' names each) simp
qed

theorem SyncPackageInstallationInfo_reconciles_witness:
  "SyncPackageInstallationInfo no_sync_faults
     (Some [toRow (sample ''A'' ''v1'' []), toRow (sample ''B'' ''v2'' [])]) [(''A'', ''v1'')]
   = (None, Some [(toRow (sample ''A'' ''v1'' []))\<lparr>c_installed := 1, c_versionInstalled := ''v1''\<rparr>,
                  (toRow (sample ''B'' ''v2'' []))\<lparr>c_installed := 0, c_versionInstalled := []\<rparr>])
   \<and> (\<exists>rows'. Some [(toRow (sample ''A'' ''v1'' []))\<lparr>c_installed := 1, c_versionInstalled := ''v1''\<rparr>,
                  (toRow (sample ''B'' ''v2'' []))\<lparr>c_installed := 0, c_versionInstalled := []\<rparr>] = Some rows' \<and> length rows' = 2
        \<and> map c_name rows' = [''A'', ''B''])"
proof -
  have h: "SyncPackageInstallationInfo no_sync_faults
     (Some [toRow (sample ''A'' ''v1'' []), toRow (sample ''B'' ''v2'' [])]) [(''A'', ''v1'')]
   = (None, Some [(toRow (sample ''A'' ''v1'' []))\<lparr>c_installed := 1, c_versionInstalled := ''v1''\<rparr>,
                  (toRow (sample ''B'' ''v2'' []))\<lparr>c_installed := 0, c_versionInstalled := []\<rparr>])"
    by (simp add: SyncPackageInstallationInfo_def no_sync_faults_def syncRow_def toRow_def sample_def)
  from SyncPackageInstallationInfo_reconciles [OF h] h show ?thesis
    by (auto simp: toRow_def sample_def)
qed



subsection \<open>Fields outside the allow-list\<close>

lemma isAllowedField_set: "isAllowedField f xs = (f \<in> set xs)"
  by (induction xs) auto

lemma hostConditions_reject:
  "\<exists>f \<in> fst ` set filters. f \<notin> set allowedFilterFields \<Longrightarrow>
   \<exists>fld. fld \<in> fst ` set filters \<and> fld \<notin> set allowedFilterFields \<and>
         hostConditions h filters = Inl (InvalidFilterField fld allowedFilterFields)"
proof (induction filters)
  case Nil
  then show ?case by simp
next
  case (Cons fv filters)
  obtain field v where fv: "fv = (field, v)" by (cases fv)
  show ?case
  proof (cases "field \<in> set allowedFilterFields")
    case False
    then show ?thesis unfolding fv by (auto simp: isAllowedField_set)
  next
    case True
    with Cons.prems have "\<exists>f \<in> fst ` set filters. f \<notin> set allowedFilterFields"
      unfolding fv by auto
    from Cons.IH [OF this] obtain fld where
      "fld \<in> fst ` set filters" "fld \<notin> set allowedFilterFields"
      "hostConditions h filters = Inl (InvalidFilterField fld allowedFilterFields)"
      by blast
    with True show ?thesis unfolding fv
      by (intro exI [of _ fld]) (simp add: isAllowedField_set)
  qed
qed

lemma hostConditions_accept:
  "\<forall>f \<in> fst ` set filters. f \<in> set allowedFilterFields \<Longrightarrow>
   \<exists>conditions. hostConditions h filters = Inr conditions"
  by (induction filters) (auto simp: isAllowedField_set)

lemma distroConditions_reject:
  "\<exists>f \<in> fst ` set filters. f \<notin> set distro_allowedFilterFields \<Longrightarrow>
   \<exists>fld. fld \<in> fst ` set filters \<and> fld \<notin> set distro_allowedFilterFields \<and>
         distroConditions h filters = Inl (InvalidFilterField fld distro_allowedFilterFields)"
proof (induction filters)
  case Nil
  then show ?case by simp
next
  case (Cons fv filters)
  obtain field v where fv: "fv = (field, v)" by (cases fv)
  show ?case
  proof (cases "field \<in> set distro_allowedFilterFields")
    case False
    then show ?thesis unfolding fv by (auto simp: isAllowedField_set)
  next
    case True
    with Cons.prems have "\<exists>f \<in> fst ` set filters. f \<notin> set distro_allowedFilterFields"
      unfolding fv by auto
    from Cons.IH [OF this] obtain fld where
      "fld \<in> fst ` set filters" "fld \<notin> set distro_allowedFilterFields"
      "distroConditions h filters = Inl (InvalidFilterField fld distro_allowedFilterFields)"
      by blast
    with True show ?thesis unfolding fv
      by (intro exI [of _ fld]) (simp add: isAllowedField_set)
  qed
qed

lemma distroConditions_accept:
  "\<forall>f \<in> fst ` set filters. f \<in> set distro_allowedFilterFields \<Longrightarrow>
   \<exists>conditions. distroConditions h filters = Inr conditions"
  by (induction filters) (auto simp: isAllowedField_set)

lemma host_rejects:
  assumes "(\<exists>f \<in> fst ` set filters. f \<notin> set allowedFilterFields) \<or>
           (sortField \<noteq> [] \<and> sortField \<notin> set allowedSortFields)"
  shows "\<exists>fld.
      (fld \<in> fst ` set filters \<and> fld \<notin> set allowedFilterFields \<and>
        QueryHostImagePackages h db filters sortField sortOrder limit offset
          = (Inl (InvalidFilterField fld allowedFilterFields), [])) \<or>
      (fld = sortField \<and> fld \<notin> set allowedSortFields \<and>
        QueryHostImagePackages h db filters sortField sortOrder limit offset
          = (Inl (InvalidSortField fld allowedSortFields), []))"
proof (cases "\<exists>f \<in> fst ` set filters. f \<notin> set allowedFilterFields")
  case True
  from hostConditions_reject [OF this, of h] obtain fld where
    "fld \<in> fst ` set filters" "fld \<notin> set allowedFilterFields"
    "hostConditions h filters = Inl (InvalidFilterField fld allowedFilterFields)"
    by blast
  then show ?thesis
    by (intro exI [of _ fld]) (simp add: QueryHostImagePackages_def)
next
  case False
  then have "\<forall>f \<in> fst ` set filters. f \<in> set allowedFilterFields" by blast
  from hostConditions_accept [OF this, of h] obtain conditions where
    "hostConditions h filters = Inr conditions" by blast
  moreover from False assms have "sortField \<noteq> []" "sortField \<notin> set allowedSortFields" by auto
  ultimately show ?thesis
    by (intro exI [of _ sortField]) (simp add: QueryHostImagePackages_def isAllowedField_set)
qed

lemma distro_rejects:
  assumes "(\<exists>f \<in> fst ` set filters. f \<notin> set distro_allowedFilterFields) \<or>
           (sortField \<noteq> [] \<and> sortField \<notin> set distro_allowedSortFields)"
  shows "\<exists>fld.
      (fld \<in> fst ` set filters \<and> fld \<notin> set distro_allowedFilterFields \<and>
        QueryPackages h db containerName filters sortField sortOrder limit offset
          = (Inl (InvalidFilterField fld distro_allowedFilterFields), [])) \<or>
      (fld = sortField \<and> fld \<notin> set distro_allowedSortFields \<and>
        QueryPackages h db containerName filters sortField sortOrder limit offset
          = (Inl (InvalidSortField fld distro_allowedSortFields), []))"
proof (cases "\<exists>f \<in> fst ` set filters. f \<notin> set distro_allowedFilterFields")
  case True
  from distroConditions_reject [OF this, of h] obtain fld where
    "fld \<in> fst ` set filters" "fld \<notin> set distro_allowedFilterFields"
    "distroConditions h filters = Inl (InvalidFilterField fld distro_allowedFilterFields)"
    by blast
  then show ?thesis
    by (intro exI [of _ fld]) (simp add: QueryPackages_def)
next
  case False
  then have "\<forall>f \<in> fst ` set filters. f \<in> set distro_allowedFilterFields" by blast
  from distroConditions_accept [OF this, of h] obtain conditions where
    "distroConditions h filters = Inr conditions" by blast
  moreover from False assms have "sortField \<noteq> []" "sortField \<notin> set distro_allowedSortFields" by auto
  ultimately show ?thesis
    by (intro exI [of _ sortField]) (simp add: QueryPackages_def isAllowedField_set)
qed

text \<open>
  C2. If a filter field, or the sort field, is not on the allow-list, the query
  fails with the invalid-field error, which carries the rejected field and the
  list of allowed fields, and no statement reaches the connection. The rejected
  field is a filter field that is not allowed, or else the sort field. An empty
  sort field asks for no sorting and is not checked. Stated for the host store
  (\<open>QueryHostImagePackages\<close>) and for the container store (\<open>QueryPackages\<close>).
\<close>

theorem invalid_field_rejected:
  "((\<exists>f \<in> fst ` set filters. f \<notin> set allowedFilterFields) \<or>
    (sortField \<noteq> [] \<and> sortField \<notin> set allowedSortFields) \<longrightarrow>
    (\<exists>fld.
      (fld \<in> fst ` set filters \<and> fld \<notin> set allowedFilterFields \<and>
        QueryHostImagePackages h db filters sortField sortOrder limit offset
          = (Inl (InvalidFilterField fld allowedFilterFields), [])) \<or>
      (fld = sortField \<and> fld \<notin> set allowedSortFields \<and>
        QueryHostImagePackages h db filters sortField sortOrder limit offset
          = (Inl (InvalidSortField fld allowedSortFields), [])))) \<and>
   ((\<exists>f \<in> fst ` set filters. f \<notin> set distro_allowedFilterFields) \<or>
    (sortField \<noteq> [] \<and> sortField \<notin> set distro_allowedSortFields) \<longrightarrow>
    (\<exists>fld.
      (fld \<in> fst ` set filters \<and> fld \<notin> set distro_allowedFilterFields \<and>
        QueryPackages h ddb containerName filters sortField sortOrder limit offset
          = (Inl (InvalidFilterField fld distro_allowedFilterFields), [])) \<or>
      (fld = sortField \<and> fld \<notin> set distro_allowedSortFields \<and>
        QueryPackages h ddb containerName filters sortField sortOrder limit offset
          = (Inl (InvalidSortField fld distro_allowedSortFields), []))))"
  using host_rejects [of filters sortField h db sortOrder limit offset]
    distro_rejects [of filters sortField h ddb containerName sortOrder limit offset]
  by blast

theorem invalid_field_rejected_witness:
  "''colour'' \<in> fst ` set [(''name'', VString ''vim''), (''colour'', VString ''red'')] \<and>
   ''colour'' \<notin> set allowedFilterFields \<and> ''colour'' \<notin> set distro_allowedFilterFields \<and>
   QueryHostImagePackages sample_helpers (Some [toRow (sample ''vim'' ''9'' [])])
       [(''name'', VString ''vim''), (''colour'', VString ''red'')] ''name'' ''asc'' 0 0
     = (Inl (InvalidFilterField ''colour'' allowedFilterFields), []) \<and>
   QueryPackages sample_helpers (Some []) ''box''
       [(''name'', VString ''vim''), (''colour'', VString ''red'')] ''name'' ''asc'' 0 0
     = (Inl (InvalidFilterField ''colour'' distro_allowedFilterFields), []) \<and>
   QueryHostImagePackages sample_helpers (Some [toRow (sample ''vim'' ''9'' [])])
       [(''name'', VString ''vim'')] ''colour'' ''asc'' 0 0
     = (Inl (InvalidSortField ''colour'' allowedSortFields), [])"
  using invalid_field_rejected [of "[(''name'', VString ''vim''), (''colour'', VString ''red'')]"
      "''name''" sample_helpers "Some [toRow (sample ''vim'' ''9'' [])]" "''asc''" 0 0
      "Some []" "''box''"]
    invalid_field_rejected [of "[(''name'', VString ''vim'')]"
      "''colour''" sample_helpers "Some [toRow (sample ''vim'' ''9'' [])]" "''asc''" 0 0
      "Some []" "''box''"]
  by (simp add: QueryHostImagePackages_def QueryPackages_def allowedFilterFields_def
      distro_allowedFilterFields_def allowedSortFields_def hostCondition_def)

subsection \<open>Boolean filters that do not parse\<close>

lemma hostConditions_skip:
  "ParseBool h v = None \<Longrightarrow>
   hostConditions h (before @ (''installed'', v) # after) = hostConditions h (before @ after)"
proof (induction before)
  case Nil
  then show ?case
    by (simp add: allowedFilterFields_def hostCondition_def split: sum.splits)
next
  case (Cons fv before)
  then show ?case by (cases fv) simp
qed

lemma distroConditions_skip:
  "ParseBool h v = None \<Longrightarrow> field = ''installed'' \<or> field = ''exporting'' \<Longrightarrow>
   distroConditions h (before @ (field, v) # after) = distroConditions h (before @ after)"
proof (induction before)
  case Nil
  then show ?case
    by (auto simp: distro_allowedFilterFields_def distroCondition_def split: sum.splits)
next
  case (Cons fv before)
  then show ?case by (cases fv) simp
qed

text \<open>
  C8. A filter on an allowed boolean field (\<open>installed\<close> on the host,
  \<open>installed\<close> or \<open>exporting\<close> in a container) whose value \<open>ParseBool\<close>
  rejects is skipped: the call returns what it returns for the same filters
  without that entry (the other entries visited in the same order), the same
  statement included.
\<close>

theorem unparseable_boolean_filter_skipped:
  "(field = ''installed'' \<and> ParseBool h v = None \<longrightarrow>
      QueryHostImagePackages h db (before @ (field, v) # after) sortField sortOrder limit offset
        = QueryHostImagePackages h db (before @ after) sortField sortOrder limit offset) \<and>
   ((field = ''installed'' \<or> field = ''exporting'') \<and> ParseBool h v = None \<longrightarrow>
      QueryPackages h ddb containerName (before @ (field, v) # after) sortField sortOrder limit offset
        = QueryPackages h ddb containerName (before @ after) sortField sortOrder limit offset)"
  by (simp add: QueryHostImagePackages_def QueryPackages_def hostConditions_skip
      distroConditions_skip)

lemma query_name_contains_a:
  "QueryHostImagePackages sample_helpers
       (Some [toRow (sample ''vim'' ''9'' []), toRow (sample ''nano'' ''7'' [])])
       [(''name'', VString ''a'')] [] [] 0 0
     = (Inr [sample ''nano'' ''7'' []],
        [\<lparr>q_where = [Like ''name'' ''%a%''], q_order = None, q_limit = None, q_offset = None\<rparr>])"
  by (simp add: QueryHostImagePackages_def allowedFilterFields_def hostCondition_def
      build_query_def order_clause_def select_rows_def query_fields_def cond_field_def
      hostColumns_def limit_rows_def order_rows_def holds_def hostCol_def as_text_def
      toRow_def fromRow_def sample_def ascii_lower_def)

lemma query_container_all:
  "QueryPackages sample_helpers (Some [toDrow ''box'' (sample_info ''vim'' ''9'')]) ''box''
       [] [] [] 0 0
     = (Inr [(sample_info ''vim'' ''9'')\<lparr>i_Container := ''box''\<rparr>],
        [\<lparr>q_where = [EqText ''container'' ''box''], q_order = None, q_limit = None,
          q_offset = None\<rparr>])"
  by (simp add: QueryPackages_def containerCondition_def build_query_def order_clause_def
      select_rows_def query_fields_def cond_field_def distroColumns_def limit_rows_def
      order_rows_def holds_def distroCol_def toDrow_def fromDrow_def sample_info_def)

theorem unparseable_boolean_filter_skipped_witness:
  "ParseBool sample_helpers (VString ''maybe'') = None \<and>
   QueryHostImagePackages sample_helpers
       (Some [toRow (sample ''vim'' ''9'' []), toRow (sample ''nano'' ''7'' [])])
       [(''name'', VString ''a''), (''installed'', VString ''maybe'')] [] [] 0 0
     = (Inr [sample ''nano'' ''7'' []],
        [\<lparr>q_where = [Like ''name'' ''%a%''], q_order = None, q_limit = None, q_offset = None\<rparr>]) \<and>
   QueryPackages sample_helpers (Some [toDrow ''box'' (sample_info ''vim'' ''9'')]) ''box''
       [(''exporting'', VString ''maybe'')] [] [] 0 0
     = (Inr [(sample_info ''vim'' ''9'')\<lparr>i_Container := ''box''\<rparr>],
        [\<lparr>q_where = [EqText ''container'' ''box''], q_order = None, q_limit = None,
          q_offset = None\<rparr>])"
  using unparseable_boolean_filter_skipped [of "''installed''" sample_helpers "VString ''maybe''"
      "Some [toRow (sample ''vim'' ''9'' []), toRow (sample ''nano'' ''7'' [])]"
      "[(''name'', VString ''a'')]" "[]" "[]" "[]" 0 0]
    unparseable_boolean_filter_skipped [of "''exporting''" sample_helpers "VString ''maybe''"
      "None" "[]" "[]" "[]" "[]" 0 0 "Some [toDrow ''box'' (sample_info ''vim'' ''9'')]" "''box''"]
    query_name_contains_a query_container_all
  by (simp add: sample_helpers_def)

subsection \<open>The order in which the filters are visited\<close>

text \<open>
  Go visits the entries of a map in no fixed order. When every field is
  allowed, the rows a query returns do not depend on that order (the statement's
  text and, when a field is not allowed, the field the error names can).
\<close>

lemma hostConditions_set:
  "\<forall>f \<in> fst ` set filters. f \<in> set allowedFilterFields \<Longrightarrow>
   \<exists>conditions. hostConditions h filters = Inr conditions \<and>
     set conditions = (\<Union>(f, v) \<in> set filters. set (hostCondition h f v))"
proof (induction filters)
  case Nil
  then show ?case by simp
next
  case (Cons fv filters)
  obtain field v where fv: "fv = (field, v)" by (cases fv)
  from Cons.prems have "\<forall>f \<in> fst ` set filters. f \<in> set allowedFilterFields" by simp
  from Cons.IH [OF this] obtain conditions where
    "hostConditions h filters = Inr conditions"
    "set conditions = (\<Union>(f, v) \<in> set filters. set (hostCondition h f v))" by blast
  moreover from Cons.prems have "field \<in> set allowedFilterFields" unfolding fv by simp
  ultimately show ?case unfolding fv
    by (simp add: isAllowedField_set)
qed

lemma select_rows_where_set:
  assumes "set (q_where q) = set (q_where q')" "q_order q = q_order q'"
    "q_limit q = q_limit q'" "q_offset q = q_offset q'"
  shows "select_rows columns col db q = select_rows columns col db q'"
proof -
  have a: "list_all (\<lambda>f. f \<in> set columns) (query_fields q)
      = list_all (\<lambda>f. f \<in> set columns) (query_fields q')"
    using assms by (simp add: query_fields_def list_all_iff split: option.splits)
  have b: "(\<lambda>r. list_all (holds col r) (q_where q)) = (\<lambda>r. list_all (holds col r) (q_where q'))"
    using assms by (simp add: list_all_iff)
  show ?thesis
    unfolding select_rows_def a b by (simp only: assms(2-4))
qed

lemma host_rows_independent_of_visiting_order:
  assumes "set filters = set filters'"
    and "\<forall>f \<in> fst ` set filters. f \<in> set allowedFilterFields"
  shows "fst (QueryHostImagePackages h db filters sortField sortOrder limit offset)
       = fst (QueryHostImagePackages h db filters' sortField sortOrder limit offset)"
proof -
  from hostConditions_set [OF assms(2), of h] obtain cs where
    cs: "hostConditions h filters = Inr cs"
      "set cs = (\<Union>(f, v) \<in> set filters. set (hostCondition h f v))" by blast
  from assms have "\<forall>f \<in> fst ` set filters'. f \<in> set allowedFilterFields" by simp
  from hostConditions_set [OF this, of h] obtain cs' where
    cs': "hostConditions h filters' = Inr cs'"
      "set cs' = (\<Union>(f, v) \<in> set filters'. set (hostCondition h f v))" by blast
  from cs(2) cs'(2) assms(1) have eq: "set cs = set cs'" by simp
  have "\<And>sf. select_rows hostColumns hostCol db (build_query h cs sf sortOrder limit offset)
      = select_rows hostColumns hostCol db (build_query h cs' sf sortOrder limit offset)"
    by (rule select_rows_where_set) (simp_all add: build_query_def eq)
  then show ?thesis
    by (simp add: QueryHostImagePackages_def cs(1) cs'(1) Let_def split: option.splits)
qed

subsection \<open>Filters on \<open>depends\<close> and \<open>provides\<close>\<close>

lemma ascii_lower_comma: "ascii_lower c = CHR '','' \<longleftrightarrow> c = CHR '',''"
proof
  assume h: "ascii_lower c = CHR '',''"
  show "c = CHR '',''"
  proof (cases "65 \<le> (of_char c :: nat) \<and> (of_char c :: nat) \<le> 90")
    case True
    with h have "char_of ((of_char c :: nat) + 32) = CHR '',''"
      by (simp add: ascii_lower_def)
    then have "(of_char (char_of ((of_char c :: nat) + 32)) :: nat) = of_char CHR '',''"
      by simp
    then have "((of_char c :: nat) + 32) mod 256 = 44"
      by (simp only: of_char_of) simp
    with True show ?thesis by simp
  next
    case False
    with h show ?thesis by (simp add: ascii_lower_def)
  qed
next
  assume "c = CHR '',''"
  then show "ascii_lower c = CHR '',''" by (simp add: ascii_lower_def)
qed

lemma strings_Split_not_Nil: "strings_Split s sep \<noteq> []"
  by (induction s) (auto split: list.splits)

lemma strings_Split_map:
  "(\<And>c. f c = sep \<longleftrightarrow> c = sep) \<Longrightarrow>
   strings_Split (map f s) sep = map (map f) (strings_Split s sep)"
  by (induction s) (auto split: list.splits simp: strings_Split_not_Nil)

lemma first_token:
  "sep \<notin> set v \<Longrightarrow> prefix (v @ [sep]) (s @ [sep]) \<longleftrightarrow> hd (strings_Split s sep) = v"
proof (induction s arbitrary: v)
  case Nil
  then show ?case by (cases v) auto
next
  case (Cons c cs)
  show ?case
  proof (cases v)
    case Nil
    then show ?thesis by (auto split: list.splits)
  next
    case (Cons x v')
    with Cons.prems Cons.IH [of v'] show ?thesis
      using strings_Split_not_Nil [of cs sep]
      by (auto split: list.splits)
  qed
qed

lemma later_token:
  "sep \<notin> set v \<Longrightarrow>
   sublist (sep # v @ [sep]) (s @ [sep]) \<longleftrightarrow> v \<in> set (tl (strings_Split s sep))"
proof (induction s)
  case Nil
  then show ?case by (simp add: sublist_Cons_right)
next
  case (Cons c cs)
  have ne: "strings_Split cs sep \<noteq> []" by (rule strings_Split_not_Nil)
  then have mem: "v \<in> set (strings_Split cs sep) \<longleftrightarrow>
      hd (strings_Split cs sep) = v \<or> v \<in> set (tl (strings_Split cs sep))"
    by (cases "strings_Split cs sep") auto
  have "sublist (sep # v @ [sep]) ((c # cs) @ [sep]) \<longleftrightarrow>
        (c = sep \<and> prefix (v @ [sep]) (cs @ [sep])) \<or> sublist (sep # v @ [sep]) (cs @ [sep])"
    by (auto simp: sublist_Cons_right)
  also have "\<dots> \<longleftrightarrow> (c = sep \<and> hd (strings_Split cs sep) = v) \<or> v \<in> set (tl (strings_Split cs sep))"
    using Cons.IH [OF Cons.prems] first_token [OF Cons.prems, of cs] by simp
  also have "\<dots> \<longleftrightarrow> v \<in> set (tl (strings_Split (c # cs) sep))"
    using ne mem by (auto split: list.splits)
  finally show ?case .
qed

lemma wrapped_token:
  assumes "sep \<notin> set v"
  shows "sublist (sep # v @ [sep]) (sep # s @ [sep]) \<longleftrightarrow> v \<in> set (strings_Split s sep)"
proof -
  have ne: "strings_Split s sep \<noteq> []" by (rule strings_Split_not_Nil)
  then have mem: "v \<in> set (strings_Split s sep) \<longleftrightarrow>
      hd (strings_Split s sep) = v \<or> v \<in> set (tl (strings_Split s sep))"
    by (cases "strings_Split s sep") auto
  have a: "sublist (sep # v @ [sep]) (sep # s @ [sep]) \<longleftrightarrow>
        prefix (sep # v @ [sep]) (sep # s @ [sep]) \<or> sublist (sep # v @ [sep]) (s @ [sep])"
    by (rule sublist_Cons_right)
  have b: "prefix (sep # v @ [sep]) (sep # s @ [sep]) \<longleftrightarrow> prefix (v @ [sep]) (s @ [sep])"
    by (simp only: Cons_prefix_Cons simp_thms)
  show ?thesis
    unfolding a b first_token [OF assms] later_token [OF assms] mem ..
qed

lemma sql_like_percent: "sql_like ''%'' s"
  by (induction s) auto

lemma sql_like_any_prefix:
  "sql_like (CHR ''%'' # ps) s \<longleftrightarrow> (\<exists>a rest. s = a @ rest \<and> sql_like ps rest)"
proof (induction s)
  case Nil
  then show ?case by simp
next
  case (Cons c cs)
  have "(\<exists>a rest. c # cs = a @ rest \<and> sql_like ps rest) \<longleftrightarrow>
        sql_like ps (c # cs) \<or> (\<exists>a rest. cs = a @ rest \<and> sql_like ps rest)"
    by (auto simp: Cons_eq_append_conv)
  with Cons.IH show ?case by simp
qed

lemma sql_like_literal:
  "CHR ''%'' \<notin> set w \<Longrightarrow> CHR ''_'' \<notin> set w \<Longrightarrow>
   sql_like (w @ ps) s \<longleftrightarrow>
     (\<exists>c rest. s = c @ rest \<and> map ascii_lower c = map ascii_lower w \<and> sql_like ps rest)"
proof (induction w arbitrary: s)
  case Nil
  then show ?case by simp
next
  case (Cons x w)
  show ?case
  proof (cases s)
    case Nil
    with Cons.prems show ?thesis by auto
  next
    case (Cons y t)
    have x: "x \<noteq> CHR ''%''" "x \<noteq> CHR ''_''"
      using Cons.prems by auto
    have "sql_like ((x # w) @ ps) (y # t) \<longleftrightarrow> ascii_lower x = ascii_lower y \<and> sql_like (w @ ps) t"
      using x by simp
    also have "\<dots> \<longleftrightarrow> ascii_lower x = ascii_lower y \<and>
        (\<exists>c rest. t = c @ rest \<and> map ascii_lower c = map ascii_lower w \<and> sql_like ps rest)"
      using Cons.IH [of t] Cons.prems by simp
    also have "\<dots> \<longleftrightarrow> (\<exists>c rest. y # t = c @ rest \<and>
        map ascii_lower c = map ascii_lower (x # w) \<and> sql_like ps rest)"
    proof
      assume "ascii_lower x = ascii_lower y \<and>
        (\<exists>c rest. t = c @ rest \<and> map ascii_lower c = map ascii_lower w \<and> sql_like ps rest)"
      then obtain c rest where "ascii_lower x = ascii_lower y" "t = c @ rest"
        "map ascii_lower c = map ascii_lower w" "sql_like ps rest"
        by blast
      then show "\<exists>c rest. y # t = c @ rest \<and>
        map ascii_lower c = map ascii_lower (x # w) \<and> sql_like ps rest"
        by (intro exI [of _ "y # c"] exI [of _ rest]) simp
    next
      assume "\<exists>c rest. y # t = c @ rest \<and>
        map ascii_lower c = map ascii_lower (x # w) \<and> sql_like ps rest"
      then obtain c rest where c: "y # t = c @ rest"
        "map ascii_lower c = map ascii_lower (x # w)" "sql_like ps rest"
        by blast
      from c(2) obtain z c' where c': "c = z # c'"
        by (cases c) auto
      with c show "ascii_lower x = ascii_lower y \<and>
        (\<exists>c rest. t = c @ rest \<and> map ascii_lower c = map ascii_lower w \<and> sql_like ps rest)"
        by auto
    qed
    finally show ?thesis unfolding Cons .
  qed
qed

lemma sql_like_contains:
  assumes "CHR ''%'' \<notin> set w" "CHR ''_'' \<notin> set w"
  shows "sql_like (CHR ''%'' # w @ ''%'') s \<longleftrightarrow> sublist (map ascii_lower w) (map ascii_lower s)"
proof -
  have "sql_like (CHR ''%'' # w @ ''%'') s \<longleftrightarrow>
        (\<exists>a rest. s = a @ rest \<and> sql_like (w @ ''%'') rest)"
    by (rule sql_like_any_prefix)
  also have "\<dots> \<longleftrightarrow> (\<exists>a rest. s = a @ rest \<and>
        (\<exists>c r. rest = c @ r \<and> map ascii_lower c = map ascii_lower w \<and> sql_like ''%'' r))"
    by (simp only: sql_like_literal [OF assms])
  also have "\<dots> \<longleftrightarrow> (\<exists>a c r. s = a @ c @ r \<and> map ascii_lower c = map ascii_lower w)"
    by (simp only: sql_like_percent simp_thms) blast
  also have "\<dots> \<longleftrightarrow> sublist (map ascii_lower w) (map ascii_lower s)"
  proof
    assume "\<exists>a c r. s = a @ c @ r \<and> map ascii_lower c = map ascii_lower w"
    then obtain a c r where "s = a @ c @ r" "map ascii_lower c = map ascii_lower w"
      by blast
    then have "map ascii_lower s = map ascii_lower a @ map ascii_lower w @ map ascii_lower r"
      by simp
    then show "sublist (map ascii_lower w) (map ascii_lower s)"
      by (simp only: sublist_appendI)
  next
    assume "sublist (map ascii_lower w) (map ascii_lower s)"
    then obtain ps ss where "map ascii_lower s = ps @ map ascii_lower w @ ss"
      unfolding sublist_def by blast
    then have "\<exists>us vs. s = us @ vs \<and> ps = map ascii_lower us \<and>
        map ascii_lower w @ ss = map ascii_lower vs"
      by (simp only: map_eq_append_conv)
    then obtain a rest where s: "s = a @ rest" and "map ascii_lower w @ ss = map ascii_lower rest"
      by blast
    then have "\<exists>us vs. rest = us @ vs \<and> map ascii_lower w = map ascii_lower us \<and>
        ss = map ascii_lower vs"
      by (simp only: append_eq_map_conv)
    then obtain c r where "rest = c @ r" "map ascii_lower c = map ascii_lower w"
      by force
    with s show "\<exists>a c r. s = a @ c @ r \<and> map ascii_lower c = map ascii_lower w"
      by blast
  qed
  finally show ?thesis .
qed

lemma wrapped_like_member:
  assumes "CHR ''%'' \<notin> set v" "CHR ''_'' \<notin> set v" "CHR '','' \<notin> set v"
  shows "sql_like (''%,'' @ v @ '',%'') ('','' @ s @ '','') \<longleftrightarrow>
         (\<exists>t \<in> set (strings_Split s CHR '',''). map ascii_lower t = map ascii_lower v)"
proof -
  have lit: "CHR ''%'' \<notin> set ('','' @ v @ '','')" "CHR ''_'' \<notin> set ('','' @ v @ '','')"
    using assms by auto
  have nocomma: "CHR '','' \<notin> set (map ascii_lower v)"
  proof
    assume "CHR '','' \<in> set (map ascii_lower v)"
    then obtain x where "x \<in> set v" "ascii_lower x = CHR '',''"
      by auto
    with assms(3) show False
      by (simp add: ascii_lower_comma)
  qed
  have lc: "ascii_lower CHR '','' = CHR '',''"
    by (simp add: ascii_lower_comma)
  have "sql_like (''%,'' @ v @ '',%'') ('','' @ s @ '','') \<longleftrightarrow>
        sql_like (CHR ''%'' # ('','' @ v @ '','') @ ''%'') ('','' @ s @ '','')"
    by simp
  also have "\<dots> \<longleftrightarrow> sublist (map ascii_lower ('','' @ v @ '','')) (map ascii_lower ('','' @ s @ '',''))"
    by (rule sql_like_contains [OF lit])
  also have "\<dots> \<longleftrightarrow> sublist (CHR '','' # map ascii_lower v @ [CHR '',''])
                              (CHR '','' # map ascii_lower s @ [CHR '',''])"
    by (simp add: lc)
  also have "\<dots> \<longleftrightarrow> map ascii_lower v \<in> set (strings_Split (map ascii_lower s) CHR '','')"
    by (rule wrapped_token [OF nocomma])
  also have "\<dots> \<longleftrightarrow> map ascii_lower v \<in> set (map (map ascii_lower) (strings_Split s CHR '',''))"
    by (simp only: strings_Split_map [of ascii_lower, OF ascii_lower_comma])
  also have "\<dots> \<longleftrightarrow> (\<exists>t \<in> set (strings_Split s CHR '',''). map ascii_lower t = map ascii_lower v)"
  proof
    assume "map ascii_lower v \<in> set (map (map ascii_lower) (strings_Split s CHR '',''))"
    then obtain t where "t \<in> set (strings_Split s CHR '','')" "map ascii_lower v = map ascii_lower t"
      by (auto simp: image_iff)
    then show "\<exists>t \<in> set (strings_Split s CHR '',''). map ascii_lower t = map ascii_lower v"
      by (intro bexI [of _ t]) simp_all
  next
    assume "\<exists>t \<in> set (strings_Split s CHR '',''). map ascii_lower t = map ascii_lower v"
    then obtain t where "t \<in> set (strings_Split s CHR '','')" "map ascii_lower t = map ascii_lower v"
      by blast
    then show "map ascii_lower v \<in> set (map (map ascii_lower) (strings_Split s CHR '',''))"
      by (simp only: set_map) (rule image_eqI [of _ _ t], simp_all)
  qed
  finally show ?thesis .
qed

lemma tokens_member:
  assumes "v \<noteq> []"
  shows "(\<exists>t \<in> set (if s \<noteq> [] then strings_Split s CHR '','' else []).
            map ascii_lower t = map ascii_lower v) \<longleftrightarrow>
         (\<exists>t \<in> set (strings_Split s CHR '',''). map ascii_lower t = map ascii_lower v)"
  using assms by (cases s) auto

lemma holds_provides:
  assumes "v \<noteq> []" "CHR ''%'' \<notin> set v" "CHR ''_'' \<notin> set v" "CHR '','' \<notin> set v"
  shows "holds hostCol r (WrappedLike ''provides'' (''%,'' @ v @ '',%'')) \<longleftrightarrow>
         (\<exists>t \<in> set (Provides (fromRow r)). map ascii_lower t = map ascii_lower v)"
proof -
  have "holds hostCol r (WrappedLike ''provides'' (''%,'' @ v @ '',%'')) \<longleftrightarrow>
        sql_like (''%,'' @ v @ '',%'') ('','' @ c_provides r @ '','')"
    by (simp add: holds_def hostCol_def as_text_def)
  also have "\<dots> \<longleftrightarrow> (\<exists>t \<in> set (strings_Split (c_provides r) CHR '','').
      map ascii_lower t = map ascii_lower v)"
    by (rule wrapped_like_member [OF assms(2-4)])
  also have "\<dots> \<longleftrightarrow> (\<exists>t \<in> set (Provides (fromRow r)). map ascii_lower t = map ascii_lower v)"
    unfolding fromRow_def using tokens_member [OF assms(1), of "c_provides r"] by simp
  finally show ?thesis .
qed

lemma holds_depends:
  assumes "v \<noteq> []" "CHR ''%'' \<notin> set v" "CHR ''_'' \<notin> set v" "CHR '','' \<notin> set v"
  shows "holds hostCol r (WrappedLike ''depends'' (''%,'' @ v @ '',%'')) \<longleftrightarrow>
         (\<exists>t \<in> set (Depends (fromRow r)). map ascii_lower t = map ascii_lower v)"
proof -
  have "holds hostCol r (WrappedLike ''depends'' (''%,'' @ v @ '',%'')) \<longleftrightarrow>
        sql_like (''%,'' @ v @ '',%'') ('','' @ c_depends r @ '','')"
    by (simp add: holds_def hostCol_def as_text_def)
  also have "\<dots> \<longleftrightarrow> (\<exists>t \<in> set (strings_Split (c_depends r) CHR '','').
      map ascii_lower t = map ascii_lower v)"
    by (rule wrapped_like_member [OF assms(2-4)])
  also have "\<dots> \<longleftrightarrow> (\<exists>t \<in> set (Depends (fromRow r)). map ascii_lower t = map ascii_lower v)"
    unfolding fromRow_def using tokens_member [OF assms(1), of "c_depends r"] by simp
  finally show ?thesis .
qed

lemma query_one_condition:
  assumes "hostConditions h filters = Inr [c]" and "cond_field c \<in> set hostColumns"
  shows "fst (QueryHostImagePackages h (Some rows) filters [] sortOrder 0 0)
           = Inr (map fromRow (filter (\<lambda>r. holds hostCol r c) rows))"
    and "fst (CountHostImagePackages h (Some rows) filters)
           = Inr (int (length (filter (\<lambda>r. holds hostCol r c) rows)))"
  using assms
  by (simp_all add: QueryHostImagePackages_def CountHostImagePackages_def build_query_def
      order_clause_def select_rows_def query_fields_def limit_rows_def order_rows_def)

text \<open>
  C7. Claimed: a filter on \<open>depends\<close> or \<open>provides\<close> with value \<open>v\<close> matches a
  row iff \<open>v\<close> is an exact member of the row's list. The value goes into a
  \<open>LIKE\<close> pattern as it is, so that does not hold for every value. It holds
  in this form: for a value that is not empty and has no \<open>%\<close>, no \<open>_\<close> and no
  comma, the rows returned (and counted) are exactly the rows whose list has an
  element equal to \<open>v\<close> up to the case of ASCII letters. So \<open>lib\<close> does not
  match a list that holds only \<open>libfoo\<close>.
\<close>

theorem multi_valued_filter_matches_whole_tokens:
  assumes "v \<noteq> []" and "CHR ''%'' \<notin> set v" and "CHR ''_'' \<notin> set v" and "CHR '','' \<notin> set v"
  shows
   "fst (QueryHostImagePackages h (Some rows) [(''provides'', VString v)] [] sortOrder 0 0)
      = Inr (map fromRow (filter
          (\<lambda>r. \<exists>t \<in> set (Provides (fromRow r)). map ascii_lower t = map ascii_lower v) rows)) \<and>
    fst (QueryHostImagePackages h (Some rows) [(''depends'', VString v)] [] sortOrder 0 0)
      = Inr (map fromRow (filter
          (\<lambda>r. \<exists>t \<in> set (Depends (fromRow r)). map ascii_lower t = map ascii_lower v) rows)) \<and>
    fst (CountHostImagePackages h (Some rows) [(''provides'', VString v)])
      = Inr (int (length (filter
          (\<lambda>r. \<exists>t \<in> set (Provides (fromRow r)). map ascii_lower t = map ascii_lower v) rows))) \<and>
    fst (CountHostImagePackages h (Some rows) [(''depends'', VString v)])
      = Inr (int (length (filter
          (\<lambda>r. \<exists>t \<in> set (Depends (fromRow r)). map ascii_lower t = map ascii_lower v) rows)))"
proof -
  have p: "hostConditions h [(''provides'', VString v)]
      = Inr [WrappedLike ''provides'' (''%,'' @ v @ '',%'')]"
    by (simp add: allowedFilterFields_def hostCondition_def)
  have d: "hostConditions h [(''depends'', VString v)]
      = Inr [WrappedLike ''depends'' (''%,'' @ v @ '',%'')]"
    by (simp add: allowedFilterFields_def hostCondition_def)
  have pc: "cond_field (WrappedLike ''provides'' (''%,'' @ v @ '',%'')) \<in> set hostColumns"
    by (simp add: cond_field_def hostColumns_def)
  have dc: "cond_field (WrappedLike ''depends'' (''%,'' @ v @ '',%'')) \<in> set hostColumns"
    by (simp add: cond_field_def hostColumns_def)
  show ?thesis
    unfolding query_one_condition [OF p pc] query_one_condition [OF d dc]
      holds_provides [OF assms] holds_depends [OF assms]
    by simp
qed

theorem multi_valued_filter_matches_whole_tokens_witness:
  "''lib'' \<noteq> [] \<and> CHR ''%'' \<notin> set ''lib'' \<and> CHR ''_'' \<notin> set ''lib'' \<and> CHR '','' \<notin> set ''lib'' \<and>
   fst (QueryHostImagePackages sample_helpers
          (Some [toRow (sample ''foo-devel'' ''1'' [''libfoo'']),
                 toRow (sample ''lib-meta'' ''2'' [''lib'', ''libbar''])])
          [(''provides'', VString ''lib'')] [] [] 0 0)
     = Inr [sample ''lib-meta'' ''2'' [''lib'', ''libbar'']]"
proof -
  have f1: "fromRow (toRow (sample ''foo-devel'' ''1'' [''libfoo''])) = sample ''foo-devel'' ''1'' [''libfoo'']"
    by (simp add: toRow_def fromRow_def sample_def)
  have f2: "fromRow (toRow (sample ''lib-meta'' ''2'' [''lib'', ''libbar'']))
      = sample ''lib-meta'' ''2'' [''lib'', ''libbar'']"
    by (simp add: toRow_def fromRow_def sample_def)
  have p1: "Provides (sample ''foo-devel'' ''1'' [''libfoo'']) = [''libfoo'']"
    by (simp add: sample_def)
  have p2: "Provides (sample ''lib-meta'' ''2'' [''lib'', ''libbar'']) = [''lib'', ''libbar'']"
    by (simp add: sample_def)
  from multi_valued_filter_matches_whole_tokens [of "''lib''" sample_helpers
      "[toRow (sample ''foo-devel'' ''1'' [''libfoo'']),
        toRow (sample ''lib-meta'' ''2'' [''lib'', ''libbar''])]" "[]"]
  show ?thesis
    by (simp add: f1 f2 p1 p2)
qed

text \<open>
  The claim as stated fails: the value \<open>lib%\<close> matches a row whose list holds
  only \<open>libfoo\<close>, and so does \<open>LIBFOO\<close>; neither is a member of the list.
  The value \<open>a,b\<close> matches the list of \<open>a\<close> and \<open>b\<close>, and the empty value
  matches a row whose list is empty.
\<close>

theorem wildcard_matches_partial_token:
  "fst (QueryHostImagePackages sample_helpers
          (Some [toRow (sample ''foo-devel'' ''1'' [''libfoo''])])
          [(''provides'', VString ''lib%'')] [] [] 0 0)
     = Inr [sample ''foo-devel'' ''1'' [''libfoo'']] \<and>
   ''lib%'' \<notin> set (Provides (sample ''foo-devel'' ''1'' [''libfoo''])) \<and>
   fst (QueryHostImagePackages sample_helpers
          (Some [toRow (sample ''foo-devel'' ''1'' [''libfoo''])])
          [(''provides'', VString ''LIBFOO'')] [] [] 0 0)
     = Inr [sample ''foo-devel'' ''1'' [''libfoo'']] \<and>
   ''LIBFOO'' \<notin> set (Provides (sample ''foo-devel'' ''1'' [''libfoo''])) \<and>
   fst (QueryHostImagePackages sample_helpers
          (Some [toRow (sample ''ab'' ''1'' [''a'', ''b''])])
          [(''provides'', VString ''a,b'')] [] [] 0 0)
     = Inr [sample ''ab'' ''1'' [''a'', ''b'']] \<and>
   ''a,b'' \<notin> set (Provides (sample ''ab'' ''1'' [''a'', ''b''])) \<and>
   fst (QueryHostImagePackages sample_helpers
          (Some [toRow (sample ''plain'' ''1'' [])])
          [(''provides'', VString [])] [] [] 0 0)
     = Inr [sample ''plain'' ''1'' []] \<and>
   [] \<notin> set (Provides (sample ''plain'' ''1'' []))"
  by (simp add: QueryHostImagePackages_def allowedFilterFields_def hostCondition_def
      build_query_def order_clause_def select_rows_def query_fields_def cond_field_def
      hostColumns_def limit_rows_def order_rows_def holds_def hostCol_def as_text_def
      toRow_def fromRow_def sample_def ascii_lower_def char_of_eq_iff)

subsection \<open>A name the store does not know\<close>

lemma GetPackageByName_miss:
  "p \<notin> c_name ` set rows \<Longrightarrow> GetPackageByName (Some rows) p = Inl (ErrGetPackage p)"
  by (auto simp: GetPackageByName_def find_None_iff split: option.splits)

lemma GetPackageByName_hit:
  "p \<in> c_name ` set rows \<Longrightarrow> \<exists>r \<in> set rows. c_name r = p \<and> GetPackageByName (Some rows) p = Inr (fromRow r)"
  by (auto simp: GetPackageByName_def find_None_iff find_Some_iff split: option.splits)

lemma removeResolve_first_miss:
  "set before \<subseteq> c_name ` set rows \<Longrightarrow> p \<notin> c_name ` set rows \<Longrightarrow>
   removeResolve (Some rows) (before @ p # after) packagesInfo names = Inl (ErrGetPackage p)"
proof (induction before arbitrary: packagesInfo names)
  case Nil
  then show ?case by (simp add: GetPackageByName_miss)
next
  case (Cons b before)
  then have "b \<in> c_name ` set rows" by simp
  from GetPackageByName_hit [OF this] obtain r where
    "GetPackageByName (Some rows) b = Inr (fromRow r)" by blast
  with Cons show ?case by simp
qed

lemma first_unknown:
  "\<exists>p \<in> set packages. p \<notin> S \<Longrightarrow>
   \<exists>before p after. packages = before @ p # after \<and> set before \<subseteq> S \<and> p \<notin> S"
proof (induction packages)
  case Nil
  then show ?case by simp
next
  case (Cons a packages)
  show ?case
  proof (cases "a \<in> S")
    case False
    then show ?thesis by (intro exI [of _ "[]"] exI [of _ a] exI [of _ packages]) simp
  next
    case True
    with Cons.prems have "\<exists>p \<in> set packages. p \<notin> S" by auto
    from Cons.IH [OF this] obtain before p after where
      "packages = before @ p # after" "set before \<subseteq> S" "p \<notin> S" by blast
    with True show ?thesis
      by (intro exI [of _ "a # before"] exI [of _ p] exI [of _ after]) simp
  qed
qed

text \<open>
  C5. Claimed: a \<open>Remove\<close> request for a name with no exact match that some
  row provides searches by provides and lists up to 5 alternatives. \<open>Remove\<close>
  makes no such search (\<open>Install\<close> does). What holds: when the root check
  passes and the table exists, a request with a name that has no exact match,
  provided by some row or not, ends with the lookup error of the first such
  name; the response carries that error and no list of alternatives; the store
  and the desired configuration are as before.
\<close>

theorem Remove_unknown_name:
  assumes "checkRoot env = None" and "store w = Some rows"
    and "\<exists>p \<in> set packages. p \<notin> c_name ` set rows"
  shows "\<exists>before p after. packages = before @ p # after \<and>
           set before \<subseteq> c_name ` set rows \<and> p \<notin> c_name ` set rows \<and>
           Remove env rest w packages apply =
             ((\<lparr>Message = MsgError (ErrGetPackage p), Packages = None, Error = True\<rparr>,
               Some (ErrGetPackage p)), w)"
proof -
  from first_unknown [OF assms(3)] obtain before p after where
    split: "packages = before @ p # after" "set before \<subseteq> c_name ` set rows"
      "p \<notin> c_name ` set rows" by blast
  have v: "validateDB env w = (None, w)"
    using assms(2) by (simp add: validateDB_def PackageDatabaseExist_def)
  have "removeResolve (store w) packages [] [] = Inl (ErrGetPackage p)"
    unfolding assms(2) split(1) by (rule removeResolve_first_miss [OF split(2,3)])
  then have "Remove env rest w packages apply =
             ((\<lparr>Message = MsgError (ErrGetPackage p), Packages = None, Error = True\<rparr>,
               Some (ErrGetPackage p)), w)"
    using assms(1) v split(1) by (simp add: Remove_def newErrorResponse_def)
  with split show ?thesis by blast
qed

theorem Remove_unknown_name_witness:
  "checkRoot root_env = None \<and>
   ''editor'' \<notin> c_name ` set [toRow (sample ''vim'' ''9'' [''editor''])] \<and>
   Remove root_env remove_rest
       \<lparr>store = Some [toRow (sample ''vim'' ''9'' [''editor''])],
        desired_install = [], desired_remove = []\<rparr> [''vim'', ''editor''] True
     = ((\<lparr>Message = MsgError (ErrGetPackage ''editor''), Packages = None, Error = True\<rparr>,
         Some (ErrGetPackage ''editor'')),
        \<lparr>store = Some [toRow (sample ''vim'' ''9'' [''editor''])],
         desired_install = [], desired_remove = []\<rparr>)"
proof -
  have n: "c_name (toRow (sample ''vim'' ''9'' [''editor''])) = ''vim''"
    by (simp add: toRow_def sample_def)
  have r: "checkRoot root_env = None"
    by (simp add: checkRoot_def root_env_def)
  from Remove_unknown_name [of root_env
      "\<lparr>store = Some [toRow (sample ''vim'' ''9'' [''editor''])],
        desired_install = [], desired_remove = []\<rparr>"
      "[toRow (sample ''vim'' ''9'' [''editor''])]" "[''vim'', ''editor'']"
      remove_rest True, OF r]
  show ?thesis
    by (simp add: n r Remove_def validateDB_def PackageDatabaseExist_def GetPackageByName_def
        newErrorResponse_def)
qed

text \<open>
  The claim as stated fails: \<open>vim\<close> provides \<open>editor\<close> and the provides
  search finds it, yet the response of \<open>Remove\<close> for \<open>editor\<close> lists no
  alternative. \<open>Install\<close> answers the same request with the list.
\<close>

lemma query_provides_editor:
  "fst (QueryHostImagePackages sample_helpers
          (Some [toRow (sample ''vim'' ''9'' [''editor''])])
          [(''provides'', VString ''editor'')] [] [] 5 0)
     = Inr [sample ''vim'' ''9'' [''editor'']]"
  by (simp add: QueryHostImagePackages_def allowedFilterFields_def hostCondition_def
      build_query_def order_clause_def select_rows_def query_fields_def cond_field_def
      hostColumns_def limit_rows_def order_rows_def holds_def hostCol_def as_text_def
      toRow_def fromRow_def sample_def ascii_lower_def)

theorem Remove_lists_no_alternatives:
  "fst (QueryHostImagePackages sample_helpers
          (Some [toRow (sample ''vim'' ''9'' [''editor''])])
          [(''provides'', VString ''editor'')] [] [] 5 0)
     = Inr [sample ''vim'' ''9'' [''editor'']] \<and>
   Remove root_env remove_rest
       \<lparr>store = Some [toRow (sample ''vim'' ''9'' [''editor''])],
        desired_install = [], desired_remove = []\<rparr> [''editor''] True
     = ((\<lparr>Message = MsgError (ErrGetPackage ''editor''), Packages = None, Error = True\<rparr>,
         Some (ErrGetPackage ''editor'')),
        \<lparr>store = Some [toRow (sample ''vim'' ''9'' [''editor''])],
         desired_install = [], desired_remove = []\<rparr>) \<and>
   fst (Install sample_helpers root_env install_rest
       \<lparr>store = Some [toRow (sample ''vim'' ''9'' [''editor''])],
        desired_install = [], desired_remove = []\<rparr> [''editor''] True)
     = (\<lparr>Message = MsgMaybeYouMeant (ErrGetPackage ''editor''), Packages = Some [''vim''],
          Error = True\<rparr>, None)"
proof -
  have n: "c_name (toRow (sample ''vim'' ''9'' [''editor''])) = ''vim''"
    by (simp add: toRow_def sample_def)
  have m: "Name (sample ''vim'' ''9'' [''editor'']) = ''vim''"
    by (simp add: sample_def)
  show ?thesis
    by (simp add: query_provides_editor n m Remove_def Install_def checkRoot_def root_env_def validateDB_def
      PackageDatabaseExist_def GetPackageByName_def newErrorResponse_def installLookup_def
      suggestAlternatives_def)
qed


subsection \<open>Stripping the pin markers\<close>

lemma stripped_snoc:
  "looked \<noteq> [] \<Longrightarrow>
   stripped_one_by_one db (looked @ [y]) \<longleftrightarrow>
     stripped_one_by_one db looked \<and> last looked \<noteq> [] \<and>
     (last (last looked) = CHR ''+'' \<or> last (last looked) = CHR ''-'') \<and>
     y = butlast (last looked) \<and> isl (GetPackageByName db (last looked))"
proof (induction db looked rule: stripped_one_by_one.induct)
  case (1 db)
  then show ?case by simp
next
  case (2 db x)
  then show ?case by auto
next
  case (3 db x y' zs)
  then show ?case by auto
qed

lemma canonicalLoop_chain:
  assumes "looked \<noteq> []" "last looked = c" "stripped_one_by_one db looked"
    "isl (GetPackageByName db c)"
  shows "snd (canonicalLoop db c looked) \<noteq> [] \<and>
         hd (snd (canonicalLoop db c looked)) = hd looked \<and>
         last (snd (canonicalLoop db c looked)) = fst (canonicalLoop db c looked) \<and>
         stripped_one_by_one db (snd (canonicalLoop db c looked)) \<and>
         (\<not> isl (GetPackageByName db (fst (canonicalLoop db c looked))) \<or>
          fst (canonicalLoop db c looked) = [] \<or>
          (last (fst (canonicalLoop db c looked)) \<noteq> CHR ''+'' \<and>
           last (fst (canonicalLoop db c looked)) \<noteq> CHR ''-''))"
  using assms
proof (induction db c looked rule: canonicalLoop.induct)
  case (1 db c looked)
  show ?case
  proof (cases "length c > 0 \<and> (last c = CHR ''+'' \<or> last c = CHR ''-'')")
    case False
    then have "canonicalLoop db c looked = (c, looked)"
      by (subst canonicalLoop.simps) auto
    with "1.prems" False show ?thesis by auto
  next
    case True
    have chain': "stripped_one_by_one db (looked @ [butlast c])"
      using "1.prems" True by (simp add: stripped_snoc)
    show ?thesis
    proof (cases "GetPackageByName db (butlast c)")
      case (Inr info)
      with True have "canonicalLoop db c looked = (butlast c, looked @ [butlast c])"
        by (subst canonicalLoop.simps) simp
      with "1.prems" chain' Inr show ?thesis by simp
    next
      case (Inl errTmp)
      with True have eq: "canonicalLoop db c looked =
          canonicalLoop db (butlast c) (looked @ [butlast c])"
        by (subst canonicalLoop.simps) simp
      have "snd (canonicalLoop db (butlast c) (looked @ [butlast c])) \<noteq> [] \<and>
         hd (snd (canonicalLoop db (butlast c) (looked @ [butlast c]))) = hd (looked @ [butlast c]) \<and>
         last (snd (canonicalLoop db (butlast c) (looked @ [butlast c])))
           = fst (canonicalLoop db (butlast c) (looked @ [butlast c])) \<and>
         stripped_one_by_one db (snd (canonicalLoop db (butlast c) (looked @ [butlast c]))) \<and>
         (\<not> isl (GetPackageByName db (fst (canonicalLoop db (butlast c) (looked @ [butlast c])))) \<or>
          fst (canonicalLoop db (butlast c) (looked @ [butlast c])) = [] \<or>
          (last (fst (canonicalLoop db (butlast c) (looked @ [butlast c]))) \<noteq> CHR ''+'' \<and>
           last (fst (canonicalLoop db (butlast c) (looked @ [butlast c]))) \<noteq> CHR ''-''))"
        using True Inl chain' by (intro "1.IH") auto
      then show ?thesis
        unfolding eq using "1.prems"(1) by simp
    qed
  qed
qed

lemma canonicalName_chain:
  assumes "pkg \<noteq> []"
  shows "\<exists>c looked. canonicalName db pkg = Some (c, looked) \<and>
      looked \<noteq> [] \<and> hd looked = pkg \<and> last looked = c \<and>
      stripped_one_by_one db looked \<and>
      (\<not> isl (GetPackageByName db c) \<or> c = [] \<or>
       (last c \<noteq> CHR ''+'' \<and> last c \<noteq> CHR ''-''))"
proof (cases "GetPackageByName db pkg")
  case (Inr info)
  with assms show ?thesis by (simp add: canonicalName_def)
next
  case (Inl errFull)
  with assms have eq: "canonicalName db pkg = Some (canonicalLoop db pkg [pkg])"
    by (simp add: canonicalName_def)
  from Inl have "isl (GetPackageByName db pkg)" by simp
  from canonicalLoop_chain [of "[pkg]" pkg db, OF _ _ _ this]
  have "snd (canonicalLoop db pkg [pkg]) \<noteq> [] \<and>
         hd (snd (canonicalLoop db pkg [pkg])) = pkg \<and>
         last (snd (canonicalLoop db pkg [pkg])) = fst (canonicalLoop db pkg [pkg]) \<and>
         stripped_one_by_one db (snd (canonicalLoop db pkg [pkg])) \<and>
         (\<not> isl (GetPackageByName db (fst (canonicalLoop db pkg [pkg]))) \<or>
          fst (canonicalLoop db pkg [pkg]) = [] \<or>
          (last (fst (canonicalLoop db pkg [pkg])) \<noteq> CHR ''+'' \<and>
           last (fst (canonicalLoop db pkg [pkg])) \<noteq> CHR ''-''))"
    by simp
  then show ?thesis
    unfolding eq
    by (intro exI [of _ "fst (canonicalLoop db pkg [pkg])"]
        exI [of _ "snd (canonicalLoop db pkg [pkg])"]) simp
qed

lemma installLookup_cases:
  "(\<not> isl (GetPackageByName db pkg) \<longrightarrow>
      installLookup db pkg = (GetPackageByName db pkg, False, [pkg])) \<and>
   (isl (GetPackageByName db pkg) \<and> pkg \<noteq> [] \<and> (last pkg = CHR ''+'' \<or> last pkg = CHR ''-'') \<longrightarrow>
      installLookup db pkg =
        (GetPackageByName db (butlast pkg), \<not> isl (GetPackageByName db (butlast pkg)),
         [pkg, butlast pkg])) \<and>
   (isl (GetPackageByName db pkg) \<and> (pkg = [] \<or> (last pkg \<noteq> CHR ''+'' \<and> last pkg \<noteq> CHR ''-'')) \<longrightarrow>
      installLookup db pkg = (GetPackageByName db pkg, False, [pkg]))"
  by (auto simp: installLookup_def Let_def split: sum.splits)

text \<open>
  C6. Claimed: resolution strips one trailing \<open>+\<close> or \<open>-\<close> per retry and looks
  the shorter name up again, until a lookup succeeds or the name is empty. The
  loop of \<open>applyChange\<close> also stops when the name no longer ends in a marker,
  and \<open>Install\<close> retries once and no more. What holds, for every store and
  name. In \<open>applyChange\<close> an empty requested name is skipped without a lookup;
  for any other name the names looked up start with the name as given, each
  next one is the one before without its last character, which was a marker,
  after a failed lookup; the last one is the canonical name, and it is found,
  or empty, or does not end in a marker. In \<open>Install\<close>: when the name as
  given is found, that is the only lookup; when it is not found and ends in a
  marker, the name without that marker is looked up as well, the result of
  that second lookup is the result (so \<open>pkg+\<close> resolves to \<open>pkg\<close>) and
  \<open>isMultiInstall\<close> is set iff it succeeded; when it is not found and does
  not end in a marker (or is empty), the failure stands after the one lookup.
\<close>

theorem canonical_name_strips_one_marker_per_retry:
  "canonicalName db [] = None \<and>
   (pkg \<noteq> [] \<longrightarrow>
     (\<exists>c looked. canonicalName db pkg = Some (c, looked) \<and>
        looked \<noteq> [] \<and> hd looked = pkg \<and> last looked = c \<and>
        stripped_one_by_one db looked \<and>
        (\<not> isl (GetPackageByName db c) \<or> c = [] \<or>
         (last c \<noteq> CHR ''+'' \<and> last c \<noteq> CHR ''-'')))) \<and>
   (\<not> isl (GetPackageByName db pkg) \<longrightarrow>
      installLookup db pkg = (GetPackageByName db pkg, False, [pkg])) \<and>
   (isl (GetPackageByName db pkg) \<and> pkg \<noteq> [] \<and> (last pkg = CHR ''+'' \<or> last pkg = CHR ''-'') \<longrightarrow>
      installLookup db pkg =
        (GetPackageByName db (butlast pkg), \<not> isl (GetPackageByName db (butlast pkg)),
         [pkg, butlast pkg])) \<and>
   (isl (GetPackageByName db pkg) \<and> (pkg = [] \<or> (last pkg \<noteq> CHR ''+'' \<and> last pkg \<noteq> CHR ''-'')) \<longrightarrow>
      installLookup db pkg = (GetPackageByName db pkg, False, [pkg]))"
proof -
  have e: "canonicalName db [] = None"
    by (simp add: canonicalName_def)
  from e canonicalName_chain [of pkg db] installLookup_cases [of db pkg]
  show ?thesis by blast
qed

theorem canonical_name_strips_one_marker_per_retry_witness:
  "canonicalName (Some [toRow (sample ''pkg'' ''1'' [])]) ''pkg+-''
     = Some (''pkg'', [''pkg+-'', ''pkg+'', ''pkg'']) \<and>
   stripped_one_by_one (Some [toRow (sample ''pkg'' ''1'' [])]) [''pkg+-'', ''pkg+'', ''pkg''] \<and>
   GetPackageByName (Some [toRow (sample ''pkg'' ''1'' [])]) ''pkg'' = Inr (sample ''pkg'' ''1'' []) \<and>
   canonicalName (Some [toRow (sample ''pkg'' ''1'' [])]) [] = None \<and>
   isl (GetPackageByName (Some [toRow (sample ''pkg'' ''1'' [])]) ''pkg+'') \<and>
   installLookup (Some [toRow (sample ''pkg'' ''1'' [])]) ''pkg+''
     = (Inr (sample ''pkg'' ''1'' []), True, [''pkg+'', ''pkg'']) \<and>
   installLookup (Some [toRow (sample ''pkg'' ''1'' [])]) ''pkg''
     = (Inr (sample ''pkg'' ''1'' []), False, [''pkg'']) \<and>
   installLookup (Some [toRow (sample ''pkg'' ''1'' [])]) ''foo''
     = (Inl (ErrGetPackage ''foo''), False, [''foo''])"
proof -
  have n: "c_name (toRow (sample ''pkg'' ''1'' [])) = ''pkg''"
    by (simp add: toRow_def sample_def)
  have r: "fromRow (toRow (sample ''pkg'' ''1'' [])) = sample ''pkg'' ''1'' []"
    by (simp add: toRow_def fromRow_def sample_def)
  have g0: "GetPackageByName (Some [toRow (sample ''pkg'' ''1'' [])]) ''pkg'' = Inr (sample ''pkg'' ''1'' [])"
    by (simp add: GetPackageByName_def n r)
  have g1: "GetPackageByName (Some [toRow (sample ''pkg'' ''1'' [])]) ''pkg+'' = Inl (ErrGetPackage ''pkg+'')"
    by (simp add: GetPackageByName_def n)
  have g2: "GetPackageByName (Some [toRow (sample ''pkg'' ''1'' [])]) ''pkg+-'' = Inl (ErrGetPackage ''pkg+-'')"
    by (simp add: GetPackageByName_def n)
  have g3: "GetPackageByName (Some [toRow (sample ''pkg'' ''1'' [])]) ''foo'' = Inl (ErrGetPackage ''foo'')"
    by (simp add: GetPackageByName_def n)
  have l1: "canonicalLoop (Some [toRow (sample ''pkg'' ''1'' [])]) ''pkg+-'' [''pkg+-'']
      = canonicalLoop (Some [toRow (sample ''pkg'' ''1'' [])]) ''pkg+'' [''pkg+-'', ''pkg+'']"
    by (subst canonicalLoop.simps) (simp add: g1)
  have l2: "canonicalLoop (Some [toRow (sample ''pkg'' ''1'' [])]) ''pkg+'' [''pkg+-'', ''pkg+'']
      = (''pkg'', [''pkg+-'', ''pkg+'', ''pkg''])"
    by (subst canonicalLoop.simps) (simp add: g0)
  have e: "canonicalName (Some [toRow (sample ''pkg'' ''1'' [])]) ''pkg+-''
     = Some (''pkg'', [''pkg+-'', ''pkg+'', ''pkg''])"
    by (simp add: canonicalName_def l1 l2 g2)
  from canonical_name_strips_one_marker_per_retry
    [of "Some [toRow (sample ''pkg'' ''1'' [])]" "''pkg+-''"]
    canonical_name_strips_one_marker_per_retry
    [of "Some [toRow (sample ''pkg'' ''1'' [])]" "''pkg+''"]
    canonical_name_strips_one_marker_per_retry
    [of "Some [toRow (sample ''pkg'' ''1'' [])]" "''pkg''"]
    canonical_name_strips_one_marker_per_retry
    [of "Some [toRow (sample ''pkg'' ''1'' [])]" "''foo''"] e
  show ?thesis
    by (simp add: g0 g1 g2 g3)
qed

text \<open>
  The claim as stated fails: with an empty store, \<open>foo+\<close> resolves to \<open>foo\<close>
  after one retry, a name that is neither found nor empty; and \<open>Install\<close>
  gives up on \<open>pkg+-\<close> after looking up \<open>pkg+\<close>, although \<open>pkg\<close> is in the
  store.
\<close>

theorem canonical_name_stops_at_non_marker:
  "canonicalName (Some []) ''foo+'' = Some (''foo'', [''foo+'', ''foo'']) \<and>
   GetPackageByName (Some []) ''foo'' = Inl (ErrGetPackage ''foo'') \<and>
   ''foo'' \<noteq> [] \<and>
   installLookup (Some [toRow (sample ''pkg'' ''1'' [])]) ''pkg+-''
     = (Inl (ErrGetPackage ''pkg+''), False, [''pkg+-'', ''pkg+'']) \<and>
   GetPackageByName (Some [toRow (sample ''pkg'' ''1'' [])]) ''pkg''
     = Inr (sample ''pkg'' ''1'' [])"
proof -
  have n: "c_name (toRow (sample ''pkg'' ''1'' [])) = ''pkg''"
    by (simp add: toRow_def sample_def)
  have r: "fromRow (toRow (sample ''pkg'' ''1'' [])) = sample ''pkg'' ''1'' []"
    by (simp add: toRow_def fromRow_def sample_def)
  have l1: "canonicalLoop (Some []) ''foo+'' [''foo+''] = canonicalLoop (Some []) ''foo'' [''foo+'', ''foo'']"
    by (subst canonicalLoop.simps) (simp add: GetPackageByName_def)
  have l2: "canonicalLoop (Some []) ''foo'' [''foo+'', ''foo''] = (''foo'', [''foo+'', ''foo''])"
    by (subst canonicalLoop.simps) simp
  show ?thesis
    by (simp add: canonicalName_def l1 l2 GetPackageByName_def installLookup_def Let_def n r)
qed


end
